theory Spec2Isabelle
  imports Main "HOL-Library.AList"
begin

section \<open>Text\<close>

text \<open>
  A Python \<open>str\<close> is a sequence of characters. The program looks at a character only
  through the regular expressions of \<open>parse_bet\<close>, through \<open>str.strip\<close>, \<open>str.replace\<close>,
  \<open>int\<close> and \<open>str\<close>; so a character is modelled by what these can tell apart:
  the Chinese characters of the bet keywords and bet names, a decimal digit (matched by \<open>\d\<close>, read
  by \<open>int\<close> through its value; \<open>Digit v 0\<close> is the ASCII digit of value \<open>v\<close>, another second
  argument a digit of another script), the space U+0020, any other whitespace character
  (matched by \<open>\s\<close>, removed by \<open>strip\<close>), and any other character.
\<close>

datatype uchar =
    Da        \<comment> \<open>U+5927, big\<close>
  | Xiao      \<comment> \<open>U+5C0F, small\<close>
  | Dan       \<comment> \<open>U+5355, odd\<close>
  | Shuang    \<comment> \<open>U+53CC, even\<close>
  | Bao       \<comment> \<open>U+8C79, first character of the triple keyword\<close>
  | Zi        \<comment> \<open>U+5B50, second character of the triple keyword\<close>
  | He        \<comment> \<open>U+548C, first character of the name of the sum bet\<close>
  | Zhi       \<comment> \<open>U+503C, second character of the name of the sum bet\<close>
  | Digit nat nat
  | Space
  | White nat
  | Other nat

type_synonym ustr = "uchar list"

fun is_digit :: "uchar \<Rightarrow> bool" where
  "is_digit (Digit v k) = True"
| "is_digit c = False"

fun is_space :: "uchar \<Rightarrow> bool" where
  "is_space Space = True"
| "is_space (White k) = True"
| "is_space c = False"

fun digit_val :: "uchar \<Rightarrow> nat" where
  "digit_val (Digit v k) = v"
| "digit_val c = 0"

text \<open>\<open>int(s)\<close> on a non-empty run of digits (the only strings the program passes to it).\<close>

definition int_of_text :: "ustr \<Rightarrow> int" where
  "int_of_text ds = int (foldl (\<lambda>a c. 10 * a + digit_val c) 0 ds)"

text \<open>\<open>str(n)\<close> for a natural number and for an integer: ASCII decimal digits.\<close>

function str_nat :: "nat \<Rightarrow> ustr" where
  "str_nat n = (if n < 10 then [Digit n 0] else str_nat (n div 10) @ [Digit (n mod 10) 0])"
  by pat_completeness auto
termination
  by (relation "measure id") auto

declare str_nat.simps [simp del]

definition str_int :: "int \<Rightarrow> ustr" where
  "str_int i = (if i < 0 then Other 45 # str_nat (nat (- i)) else str_nat (nat i))"

text \<open>\<open>s.zfill(w)\<close> on a string of digits: zeros on the left up to width \<open>w\<close>.\<close>

definition zfill :: "nat \<Rightarrow> ustr \<Rightarrow> ustr" where
  "zfill w s = replicate (w - length s) (Digit 0 0) @ s"

text \<open>\<open>s.strip()\<close>: whitespace removed at both ends.\<close>

definition strip :: "ustr \<Rightarrow> ustr" where
  "strip s = rev (dropWhile is_space (rev (dropWhile is_space s)))"

text \<open>\<open>re.sub(r'\s+', ' ', s)\<close>: each maximal run of whitespace becomes one space.\<close>

function sub_spaces :: "ustr \<Rightarrow> ustr" where
  "sub_spaces [] = []"
| "sub_spaces (c # cs) =
     (if is_space c then Space # sub_spaces (dropWhile is_space cs) else c # sub_spaces cs)"
  by pat_completeness auto
termination
  by (relation "measure length") (auto simp: le_imp_less_Suc length_dropWhile_le)

fun starts_with :: "ustr \<Rightarrow> ustr \<Rightarrow> bool" where
  "starts_with [] s = True"
| "starts_with (p # ps) [] = False"
| "starts_with (p # ps) (c # cs) = (p = c \<and> starts_with ps cs)"

text \<open>
  \<open>s.replace(old, '')\<close>: every occurrence of \<open>old\<close>, found from the left without overlap,
  is deleted. With an empty \<open>old\<close> Python inserts the empty replacement between the
  characters, which leaves \<open>s\<close> as it is.
\<close>

function replace_del :: "ustr \<Rightarrow> ustr \<Rightarrow> ustr" where
  "replace_del old [] = []"
| "replace_del old (c # cs) =
     (if old \<noteq> [] \<and> starts_with old (c # cs)
      then replace_del old (drop (length old) (c # cs))
      else c # replace_del old cs)"
  by pat_completeness auto
termination
  by (relation "measure (\<lambda>(old, s). length s)") auto

section \<open>The bet parser\<close>

text \<open>
  A parsed bet is the dictionary \<open>{'type', 'value', 'amount'}\<close>. The type is a string:
  \<open>[Da]\<close> big, \<open>[Xiao]\<close> small, \<open>[Dan]\<close> odd, \<open>[Shuang]\<close> even, \<open>[Bao, Zi]\<close> triple,
  \<open>[He, Zhi]\<close> sum.
\<close>

record intent =
  i_type :: ustr
  i_value :: ustr
  i_amount :: int

text \<open>
  The tail \<open>\s*(\d+)\<close> of both patterns, matched at the start of \<open>s\<close>: the amount string and
  the text after the match. Both quantifiers are greedy; no character is whitespace and
  digit at once, so giving back whitespace or digits never turns a failure into a match.
\<close>

definition match_amount :: "ustr \<Rightarrow> (ustr \<times> ustr) option" where
  "match_amount s =
     (let s1 = dropWhile is_space s; ds = takeWhile is_digit s1
      in if ds = [] then None else Some (ds, dropWhile is_digit s1))"

text \<open>The alternatives of the first pattern, in the order of the source.\<close>

definition bet_keywords :: "ustr list" where
  "bet_keywords = [ [Da, Dan], [Da, Shuang], [Xiao, Dan], [Xiao, Shuang],
               [Da], [Xiao], [Dan], [Shuang], [Bao, Zi] ]"

text \<open>
  The first pattern at the start of \<open>s\<close>: the alternatives are tried in order, and an
  alternative whose keyword matches but whose amount does not is given up for the next one.
\<close>

fun match_type_at :: "ustr list \<Rightarrow> ustr \<Rightarrow> (ustr \<times> ustr \<times> ustr) option" where
  "match_type_at [] s = None"
| "match_type_at (k # ks) s =
     (if starts_with k s
      then (case match_amount (drop (length k) s) of
              Some (a, rest) \<Rightarrow> Some (k, a, rest)
            | None \<Rightarrow> match_type_at ks s)
      else match_type_at ks s)"

lemma match_amount_shorter: "match_amount s = Some (a, rest) \<Longrightarrow> length rest < length s"
proof -
  assume m: "match_amount s = Some (a, rest)"
  define s1 where "s1 = dropWhile is_space s"
  from m have r: "rest = dropWhile is_digit s1" and ne: "takeWhile is_digit s1 \<noteq> []"
    by (auto simp: match_amount_def Let_def s1_def split: if_splits)
  have "length (takeWhile is_digit s1) + length (dropWhile is_digit s1) = length s1"
    by (metis length_append takeWhile_dropWhile_id)
  with ne have "length (dropWhile is_digit s1) < length s1"
    by (cases "takeWhile is_digit s1") auto
  moreover have "length s1 \<le> length s" by (simp add: s1_def length_dropWhile_le)
  ultimately show ?thesis using r by simp
qed

lemma match_type_at_shorter:
  "match_type_at ks s = Some (k, a, rest) \<Longrightarrow> length rest < length s"
proof (induction ks)
  case Nil
  then show ?case by simp
next
  case (Cons k' ks)
  then show ?case
    by (auto split: if_splits option.splits dest!: match_amount_shorter)
qed

text \<open>\<open>findall\<close> of the first pattern: matches from the left, without overlap.\<close>

function findall_type :: "ustr \<Rightarrow> (ustr \<times> ustr) list" where
  "findall_type [] = []"
| "findall_type (c # cs) =
     (case match_type_at bet_keywords (c # cs) of
        Some (k, a, rest) \<Rightarrow> (k, a) # findall_type rest
      | None \<Rightarrow> findall_type cs)"
  by pat_completeness auto
termination
  by (relation "measure length") (auto dest: match_type_at_shorter)

text \<open>
  The second pattern \<open>(\d{1,2})\s*(\d+)\<close> at the start of \<open>s\<close>: two digits are tried
  first, then one.
\<close>

definition match_sum_at :: "ustr \<Rightarrow> (ustr \<times> ustr \<times> ustr) option" where
  "match_sum_at s =
     (let two = (if length (takeWhile is_digit (take 2 s)) = 2
                 then (case match_amount (drop 2 s) of
                         Some (a, rest) \<Rightarrow> Some (take 2 s, a, rest) | None \<Rightarrow> None)
                 else None)
      in case two of
           Some m \<Rightarrow> Some m
         | None \<Rightarrow>
             (if takeWhile is_digit (take 1 s) \<noteq> []
              then (case match_amount (drop 1 s) of
                      Some (a, rest) \<Rightarrow> Some (take 1 s, a, rest) | None \<Rightarrow> None)
              else None))"

lemma match_sum_at_shorter:
  "match_sum_at s = Some (v, a, rest) \<Longrightarrow> length rest < length s"
  by (auto simp: match_sum_at_def Let_def split: if_splits option.splits
           dest!: match_amount_shorter)

function findall_sum :: "ustr \<Rightarrow> (ustr \<times> ustr) list" where
  "findall_sum [] = []"
| "findall_sum (c # cs) =
     (case match_sum_at (c # cs) of
        Some (v, a, rest) \<Rightarrow> (v, a) # findall_sum rest
      | None \<Rightarrow> findall_sum cs)"
  by pat_completeness auto
termination
  by (relation "measure length") (auto dest: match_sum_at_shorter)

text \<open>The loop over the matches of the first pattern: bets appended, matched text removed.\<close>

definition compound :: "ustr list" where
  "compound = [ [Da, Dan], [Da, Shuang], [Xiao, Dan], [Xiao, Shuang] ]"

fun type_loop :: "(ustr \<times> ustr) list \<Rightarrow> intent list \<Rightarrow> ustr \<Rightarrow> intent list \<times> ustr" where
  "type_loop [] bets clean_text = (bets, clean_text)"
| "type_loop ((bt, amount_str) # ms) bets clean_text =
     (let amount = int_of_text amount_str;
          clean_text' = replace_del (bt @ [Space] @ amount_str)
                          (replace_del (bt @ amount_str) clean_text)
      in if bt \<in> set compound
         then type_loop ms
                (bets @ [\<lparr>i_type = [bt ! 0], i_value = [], i_amount = amount\<rparr>,
                         \<lparr>i_type = [bt ! 1], i_value = [], i_amount = amount\<rparr>])
                clean_text'
         else type_loop ms
                (bets @ [\<lparr>i_type = bt, i_value = [], i_amount = amount\<rparr>])
                clean_text')"

text \<open>The loop over the matches of the second pattern: only sums from 3 to 18 are kept.\<close>

fun sum_loop :: "(ustr \<times> ustr) list \<Rightarrow> intent list \<Rightarrow> intent list" where
  "sum_loop [] bets = bets"
| "sum_loop ((sum_val_str, amount_str) # ms) bets =
     (let sum_val = int_of_text sum_val_str; amount = int_of_text amount_str
      in if 3 \<le> sum_val \<and> sum_val \<le> 18
         then sum_loop ms
                (bets @ [\<lparr>i_type = [He, Zhi], i_value = str_int sum_val, i_amount = amount\<rparr>])
         else sum_loop ms bets)"

text \<open>Duplicates removed, the first occurrence kept; \<open>seen\<close> holds the keys met so far.\<close>

fun unique_bets :: "intent list \<Rightarrow> intent list \<Rightarrow> intent list" where
  "unique_bets seen [] = []"
| "unique_bets seen (b # bs) =
     (if b \<in> set seen then unique_bets seen bs else b # unique_bets (b # seen) bs)"

definition parse_bet :: "ustr \<Rightarrow> intent list option" where
  "parse_bet txt =
     (let clean_text = sub_spaces (strip txt);
          (bets1, clean_text') = type_loop (findall_type clean_text) [] clean_text;
          bets2 = sum_loop (findall_sum (strip clean_text')) bets1;
          u = unique_bets [] bets2
      in if u = [] then None else Some u)"

section \<open>The database\<close>

text \<open>
  The SQLite tables, as lists of rows in insertion order. Columns that are only displayed
  (chat id, the times of registration, bets and log entries) are left out, and so is the
  setting \<open>allow_irrelevant_msgs\<close>, which only decides whether a chat message is deleted.
  Integers are unbounded, as Python's are. \<open>user_data\<close> is the per-user dictionary of the
  chat framework, of which the program uses the key \<open>dice_sequence\<close>.
\<close>

datatype bet_result = Win | Lose
datatype bet_status = Active | Cancelled
datatype round_status = Open | Closed | Waiting
datatype log_type = Recharge | Withdraw | Bet | Payout | Refund | Admin_clear

record user_row =
  u_id :: nat
  u_user_id :: int
  u_username :: "string option"
  u_balance :: int
  u_is_admin :: bool
  u_is_super_admin :: bool

record bet_row =
  b_id :: nat
  b_user_id :: nat
  b_round_id :: ustr
  b_type :: ustr
  b_value :: ustr
  b_amount :: int
  b_result :: "bet_result option"
  b_payout :: int
  b_status :: bet_status

text \<open>
  The column \<open>dice_result\<close> holds the text \<open>"a,b,c"\<close>; it is modelled by the list of numbers
  that \<open>settle_bets\<close> reads back from it.
\<close>

record round_row =
  r_id :: ustr
  r_start_time :: nat
  r_end_time :: "nat option"
  r_dice_result :: "int list option"
  r_status :: round_status

record settings_row =
  min_bet :: int
  max_bet :: int
  max_size_odd_even_bets :: int
  max_sum_bets :: int
  max_leopard_bets :: int
  odds_daxiao :: int
  odds_hezhi :: int
  odds_baozi :: int
  betting_active :: int

record log_row =
  l_user_id :: nat
  l_amount :: int
  l_type :: log_type
  l_operator_id :: nat

record db =
  users :: "user_row list"
  bets :: "bet_row list"
  rounds :: "round_row list"
  settings :: settings_row
  balance_logs :: "log_row list"
  user_data :: "(int \<times> int list) list"

text \<open>The database after \<open>init_db\<close> on an empty file.\<close>

definition init_db :: db where
  "init_db = \<lparr>users = [], bets = [], rounds = [],
     settings = \<lparr>min_bet = 1000, max_bet = 30000, max_size_odd_even_bets = 2,
       max_sum_bets = 3, max_leopard_bets = 1, odds_daxiao = 2, odds_hezhi = 7,
       odds_baozi = 11, betting_active = 1\<rparr>,
     balance_logs = [], user_data = []\<rparr>"

text \<open>An \<open>INTEGER PRIMARY KEY\<close> left out of an insert is one more than the largest in the table.\<close>

definition next_id :: "nat list \<Rightarrow> nat" where
  "next_id ids = Suc (fold max ids 0)"

text \<open>\<open>SELECT ... FROM users WHERE user_id = ?\<close> and \<open>WHERE id = ?\<close>, \<open>fetchone\<close>.\<close>

definition user_by_user_id :: "db \<Rightarrow> int \<Rightarrow> user_row option" where
  "user_by_user_id s uid = find (\<lambda>u. u_user_id u = uid) (users s)"

definition user_by_id :: "db \<Rightarrow> nat \<Rightarrow> user_row option" where
  "user_by_id s i = find (\<lambda>u. u_id u = i) (users s)"

text \<open>\<open>UPDATE users SET balance = ? WHERE id = ?\<close>\<close>

definition set_balance :: "nat \<Rightarrow> int \<Rightarrow> db \<Rightarrow> db" where
  "set_balance i v s =
     s\<lparr>users := map (\<lambda>u. if u_id u = i then u\<lparr>u_balance := v\<rparr> else u) (users s)\<rparr>"

text \<open>\<open>INSERT INTO balance_logs (user_id, amount, type, operator_id, create_time)\<close>\<close>

definition insert_log :: "nat \<Rightarrow> int \<Rightarrow> log_type \<Rightarrow> nat \<Rightarrow> db \<Rightarrow> db" where
  "insert_log i a t operator s =
     s\<lparr>balance_logs := balance_logs s @
        [\<lparr>l_user_id = i, l_amount = a, l_type = t, l_operator_id = operator\<rparr>]\<rparr>"

datatype error = IntegrityError | TypeError

datatype reply =
    Betting_stopped
  | Queried
  | Not_registered
  | No_permission
  | Create_round_failed
  | Processing_error
  | No_bets_found
  | Limit_exceeded
  | Opposing_sides
  | Insufficient_balance
  | Stake_out_of_range
  | Bet_ok int
  | No_active_round
  | Need_more_dice nat
  | Need_three_emojis
  | Incomplete_dice
  | Invalid_dice
  | Round_closed
  | Already_has_result
  | Settled bool
  | Crashed error
  | Already_registered
  | Registered nat
  | Round_ended
  | Cannot_parse_reply
  | Nothing_to_cancel
  | Not_found_to_cancel
  | Cancel_ok int
  | Bad_format
  | No_such_user
  | Adjust_ok int
  | Clear_needs_confirm
  | Cleared
  | Already_on
  | Betting_opened "ustr option"
  | Already_off
  | Betting_closed
  | Limits_set
  | Odds_set
  | Already_admin
  | Admin_added
  | Is_super_admin
  | Not_admin
  | Admin_removed

section \<open>Registration\<close>

text \<open>
  \<open>start\<close>: a user already in the table is only greeted. Otherwise a row with balance 0 and
  both role flags 0 (the column defaults) is inserted; if the table then holds one row,
  the new user gets both flags.
\<close>

definition start :: "int \<Rightarrow> string option \<Rightarrow> db \<Rightarrow> reply \<times> db" where
  "start uid uname s =
     (case user_by_user_id s uid of
        Some existing_user \<Rightarrow> (Already_registered, s)
      | None \<Rightarrow>
          (let new_id = next_id (map u_id (users s));
               s1 = s\<lparr>users := users s @
                      [\<lparr>u_id = new_id, u_user_id = uid, u_username = uname, u_balance = 0,
                        u_is_admin = False, u_is_super_admin = False\<rparr>]\<rparr>;
               user_count = length (users s1);
               s2 = (if user_count = 1
                     then s1\<lparr>users := map (\<lambda>u. if u_user_id u = uid
                                   then u\<lparr>u_is_super_admin := True, u_is_admin := True\<rparr>
                                   else u) (users s1)\<rparr>
                     else s1)
           in (Registered new_id, s2)))"

text \<open>The decorators \<open>admin_required\<close> and \<open>super_admin_required\<close>.\<close>

definition admin_required :: "db \<Rightarrow> int \<Rightarrow> bool" where
  "admin_required s uid =
     (case user_by_user_id s uid of
        None \<Rightarrow> False
      | Some u \<Rightarrow> \<not> (\<not> u_is_admin u \<and> \<not> u_is_super_admin u))"

definition super_admin_required :: "db \<Rightarrow> int \<Rightarrow> bool" where
  "super_admin_required s uid =
     (case user_by_user_id s uid of None \<Rightarrow> False | Some u \<Rightarrow> u_is_super_admin u)"

section \<open>Rounds\<close>

text \<open>
  \<open>get_active_round\<close>: the open round with the latest start time. SQLite leaves the choice
  among rows of equal start time open; the model takes the first of them in table order.
\<close>

fun latest :: "round_row list \<Rightarrow> round_row option" where
  "latest [] = None"
| "latest (r # rs) =
     (case latest rs of
        None \<Rightarrow> Some r
      | Some r' \<Rightarrow> if r_start_time r < r_start_time r' then Some r' else Some r)"

definition get_active_round :: "db \<Rightarrow> ustr option" where
  "get_active_round s =
     (case latest (filter (\<lambda>r. r_status r = Open) (rounds s)) of
        None \<Rightarrow> None
      | Some active_round \<Rightarrow> Some (r_id active_round))"

text \<open>
  The callers test the returned id with \<open>if not ...\<close>, which takes the empty string for
  no round as well.
\<close>

definition no_round :: "ustr option \<Rightarrow> bool" where
  "no_round r = (case r of None \<Rightarrow> True | Some i \<Rightarrow> i = [])"

definition get_betting_status :: "db \<Rightarrow> bool" where
  "get_betting_status s = (betting_active (settings s) = 1)"

definition set_betting_status :: "bool \<Rightarrow> db \<Rightarrow> db" where
  "set_betting_status active s =
     s\<lparr>settings := (settings s)\<lparr>betting_active := (if active then 1 else 0)\<rparr>\<rparr>"

definition check_pending_round :: "db \<Rightarrow> bool" where
  "check_pending_round s =
     (find (\<lambda>r. r_status r = Open \<or> (r_status r = Waiting \<and> r_end_time r = None)) (rounds s)
        \<noteq> None)"

text \<open>
  \<open>create_new_round\<close>. \<open>today\<close> is the date as the number \<open>YYYYMMDD\<close>, so that \<open>str_nat today\<close>
  is the text of \<open>strftime('%Y%m%d')\<close>; it holds digits only, and \<open>id LIKE today%\<close> selects the
  ids that start with it. The insert raises \<open>IntegrityError\<close> when the id is in the table.
\<close>

definition create_new_round :: "nat \<Rightarrow> nat \<Rightarrow> db \<Rightarrow> error + (ustr option \<times> db)" where
  "create_new_round today now s =
     (if check_pending_round s then Inr (None, s)
      else
        (let today_rounds = length (filter (\<lambda>r. starts_with (str_nat today) (r_id r)) (rounds s));
             round_number = today_rounds + 1;
             round_id = str_nat today @ zfill 3 (str_nat round_number)
         in if round_id \<in> set (map r_id (rounds s)) then Inl IntegrityError
            else Inr (Some round_id,
                   s\<lparr>rounds := rounds s @
                      [\<lparr>r_id = round_id, r_start_time = now, r_end_time = None,
                        r_dice_result = None, r_status = Open\<rparr>]\<rparr>)))"

section \<open>Placing bets\<close>

definition size_odd_even :: "ustr list" where
  "size_odd_even = [ [Da], [Xiao], [Dan], [Shuang] ]"

text \<open>\<open>sum(1 for bet in ... if bet_type in [...])\<close>\<close>

definition count_types :: "ustr list \<Rightarrow> ustr list \<Rightarrow> int" where
  "count_types wanted ts = int (length (filter (\<lambda>t. t \<in> set wanted) ts))"

definition opposing :: "ustr list \<Rightarrow> bool" where
  "opposing all_types =
     (([Da] \<in> set all_types \<and> [Xiao] \<in> set all_types) \<or>
      ([Dan] \<in> set all_types \<and> [Shuang] \<in> set all_types))"

text \<open>\<open>SELECT ... FROM bets WHERE user_id = ? AND round_id = ? AND status = 'active'\<close>\<close>

definition active_bets :: "db \<Rightarrow> nat \<Rightarrow> ustr \<Rightarrow> bet_row list" where
  "active_bets s user_id round_id =
     filter (\<lambda>b. b_user_id b = user_id \<and> b_round_id b = round_id \<and> b_status b = Active) (bets s)"

definition insert_bet :: "nat \<Rightarrow> ustr \<Rightarrow> intent \<Rightarrow> db \<Rightarrow> db" where
  "insert_bet user_id round_id bet s =
     s\<lparr>bets := bets s @
        [\<lparr>b_id = next_id (map b_id (bets s)), b_user_id = user_id, b_round_id = round_id,
          b_type = i_type bet, b_value = i_value bet, b_amount = i_amount bet,
          b_result = None, b_payout = 0, b_status = Active\<rparr>]\<rparr>"

text \<open>The loop that records each bet and its ledger entry.\<close>

fun record_bets :: "nat \<Rightarrow> ustr \<Rightarrow> intent list \<Rightarrow> db \<Rightarrow> db" where
  "record_bets user_id round_id [] s = s"
| "record_bets user_id round_id (bet # bs) s =
     record_bets user_id round_id bs
       (insert_log user_id (- i_amount bet) Bet 0 (insert_bet user_id round_id bet s))"

text \<open>
  The active round, or a new one when there is none. \<open>create_new_round\<close> commits on a
  connection of its own.
\<close>

definition resolve_round :: "nat \<Rightarrow> nat \<Rightarrow> db \<Rightarrow> error + (ustr option \<times> db)" where
  "resolve_round today now s =
     (let current_round_id = get_active_round s
      in if no_round current_round_id then create_new_round today now s
         else Inr (current_round_id, s))"

text \<open>
  \<open>process_bet\<close> from the parsing of the message on. When no bet is parsed the program
  answers with a format hint or deletes the message; both leave the database alone and
  are one reply here.
\<close>

definition place_bets :: "nat \<Rightarrow> int \<Rightarrow> ustr \<Rightarrow> ustr \<Rightarrow> db \<Rightarrow> reply \<times> db" where
  "place_bets user_id user_balance current_round_id message_text s =
     (let current_bets = map b_type (active_bets s user_id current_round_id);
          current_size_odd_even = count_types size_odd_even current_bets;
          current_sum = count_types [ [He, Zhi] ] current_bets;
          current_leopard = count_types [ [Bao, Zi] ] current_bets
      in case parse_bet message_text of
           None \<Rightarrow> (No_bets_found, s)
         | Some new_bets \<Rightarrow>
             (let new_types = map i_type new_bets;
                  new_size_odd_even = count_types size_odd_even new_types;
                  new_sum = count_types [ [He, Zhi] ] new_types;
                  new_leopard = count_types [ [Bao, Zi] ] new_types
              in if current_size_odd_even + new_size_odd_even > max_size_odd_even_bets (settings s)
                    \<or> current_sum + new_sum > max_sum_bets (settings s)
                    \<or> current_leopard + new_leopard > max_leopard_bets (settings s)
                 then (Limit_exceeded, s)
                 else if opposing (current_bets @ new_types) then (Opposing_sides, s)
                 else
                   (let total_amount = sum_list (map i_amount new_bets)
                    in if user_balance < total_amount then (Insufficient_balance, s)
                       else if \<exists>bet \<in> set new_bets. i_amount bet < min_bet (settings s)
                                  \<or> i_amount bet > max_bet (settings s)
                       then (Stake_out_of_range, s)
                       else
                         (let new_balance = user_balance - total_amount
                          in (Bet_ok new_balance,
                              record_bets user_id current_round_id new_bets
                                (set_balance user_id new_balance s))))))"

definition process_bet :: "int \<Rightarrow> ustr \<Rightarrow> nat \<Rightarrow> nat \<Rightarrow> db \<Rightarrow> reply \<times> db" where
  "process_bet uid txt today now s =
     (if \<not> get_betting_status s then (Betting_stopped, s)
      else
        (let message_text = strip txt
         in if message_text = [Digit 1 0] \<or> message_text = [Digit 2 0, Digit 2 0]
               \<or> message_text = [Digit 3 0, Digit 3 0]
            then (Queried, s)
            else
              (case user_by_user_id s uid of
                 None \<Rightarrow> (Not_registered, s)
               | Some db_user \<Rightarrow>
                   (case resolve_round today now s of
                      Inl e \<Rightarrow> (Processing_error, s)
                    | Inr (None, s1) \<Rightarrow> (Create_round_failed, s1)
                    | Inr (Some current_round_id, s1) \<Rightarrow>
                        if current_round_id = [] then (Create_round_failed, s1)
                        else place_bets (u_id db_user) (u_balance db_user)
                               current_round_id message_text s1))))"

section \<open>Settlement\<close>

text \<open>\<open>UPDATE bets SET result = ?, payout = ? WHERE id = ?\<close>\<close>

definition set_result :: "nat \<Rightarrow> bet_result \<Rightarrow> int \<Rightarrow> db \<Rightarrow> db" where
  "set_result bet_id res payout s =
     s\<lparr>bets := map (\<lambda>b. if b_id b = bet_id then b\<lparr>b_result := Some res, b_payout := payout\<rparr>
                          else b) (bets s)\<rparr>"

text \<open>The outcome of one bet: the body of the loop up to the update of the bet.\<close>

definition bet_outcome :: "settings_row \<Rightarrow> int list \<Rightarrow> bet_row \<Rightarrow> bet_result \<times> int" where
  "bet_outcome st dice_nums bet =
     (let total = sum_list dice_nums;
          is_leopard = (length (remdups dice_nums) = 1);
          size = (if total > 10 then [Da] else [Xiao]);
          odd_even = (if total mod 2 = 1 then [Dan] else [Shuang]);
          bet_type = b_type bet
      in if is_leopard
         then (if bet_type = [Bao, Zi] then (Win, b_amount bet * odds_baozi st) else (Lose, 0))
         else if bet_type \<in> set size_odd_even
         then (if (bet_type = [Da] \<and> size = [Da]) \<or> (bet_type = [Xiao] \<and> size = [Xiao])
                  \<or> (bet_type = [Dan] \<and> odd_even = [Dan])
                  \<or> (bet_type = [Shuang] \<and> odd_even = [Shuang])
               then (Win, b_amount bet * odds_daxiao st) else (Lose, 0))
         else if bet_type = [He, Zhi] \<and> b_value bet = str_int total
         then (Win, b_amount bet * odds_hezhi st)
         else (Lose, 0))"

text \<open>
  The loop over the bets fetched before it. A winning bet whose owner is not in the users
  table makes \<open>user['balance']\<close> raise \<open>TypeError\<close>.
\<close>

fun settle_loop :: "int list \<Rightarrow> bet_row list \<Rightarrow> bool \<Rightarrow> db \<Rightarrow> error + (bool \<times> db)" where
  "settle_loop dice_nums [] has_winners s = Inr (has_winners, s)"
| "settle_loop dice_nums (bet # bs) has_winners s =
     (let (res, payout) = bet_outcome (settings s) dice_nums bet;
          has_winners' = (has_winners \<or> res = Win);
          s1 = set_result (b_id bet) res payout s
      in if res = Win \<and> payout > 0
         then (case user_by_id s1 (b_user_id bet) of
                 None \<Rightarrow> Inl TypeError
               | Some user \<Rightarrow>
                   settle_loop dice_nums bs has_winners'
                     (insert_log (b_user_id bet) payout Payout 0
                        (set_balance (b_user_id bet) (u_balance user + payout) s1)))
         else settle_loop dice_nums bs has_winners' s1)"

definition settle_bets :: "ustr \<Rightarrow> int list \<Rightarrow> db \<Rightarrow> error + (bool \<times> db)" where
  "settle_bets round_id dice_nums s =
     (let round_bets = filter (\<lambda>b. b_round_id b = round_id \<and> b_status b = Active) (bets s)
      in if round_bets = [] then Inr (False, s)
         else settle_loop dice_nums round_bets False s)"

section \<open>Dice\<close>

text \<open>
  A dice message is either a built-in dice of the chat (its value), or a text, of which the
  program takes the characters matched by its character class: the die symbol, for which
  \<open>random.randint(1, 6)\<close> is drawn (the drawn number is part of the input), or one of the
  other characters of the class, for which the lookup in \<open>DICE_EMOJI_MAP\<close> finds no key and
  gives 0.
\<close>

datatype dice_symbol = Random_die int | Other_symbol

datatype dice_message = Dice int | Emojis "dice_symbol list"

fun symbol_value :: "dice_symbol \<Rightarrow> int" where
  "symbol_value (Random_die v) = v"
| "symbol_value Other_symbol = 0"

text \<open>
  The collection of three values: the values, or the reply that ends the call; in both
  cases with the dictionary of the user updated.
\<close>

definition collect_dice :: "int \<Rightarrow> dice_message \<Rightarrow> db \<Rightarrow> (reply + int list) \<times> db" where
  "collect_dice uid msg s =
     (case msg of
        Dice v \<Rightarrow>
          (let dice_sequence = (case map_of (user_data s) uid of None \<Rightarrow> [] | Some q \<Rightarrow> q) @ [v]
           in if length dice_sequence = 3
              then (Inr dice_sequence, s\<lparr>user_data := AList.delete uid (user_data s)\<rparr>)
              else (Inl (Need_more_dice (3 - length dice_sequence)),
                    s\<lparr>user_data := AList.update uid dice_sequence (user_data s)\<rparr>))
      | Emojis emojis \<Rightarrow>
          if length emojis = 3 then (Inr (map symbol_value emojis), s)
          else (Inl Need_three_emojis, s))"

text \<open>\<open>UPDATE rounds SET status = 'closed', end_time = ?, dice_result = ? WHERE id = ?\<close>\<close>

definition close_round :: "ustr \<Rightarrow> nat \<Rightarrow> int list \<Rightarrow> db \<Rightarrow> db" where
  "close_round round_id now dice_values s =
     s\<lparr>rounds := map (\<lambda>r. if r_id r = round_id
                         then r\<lparr>r_status := Closed, r_end_time := Some now,
                                r_dice_result := Some dice_values\<rparr>
                         else r) (rounds s)\<rparr>"

text \<open>
  \<open>handle_dice\<close>. The update of the round and the settlement are written through one
  connection and committed together; when \<open>settle_bets\<close> raises, neither is kept.
\<close>

definition handle_dice :: "int \<Rightarrow> dice_message \<Rightarrow> nat \<Rightarrow> db \<Rightarrow> reply \<times> db" where
  "handle_dice uid msg now s =
     (case get_active_round s of
        None \<Rightarrow> (No_active_round, s)
      | Some active_round_id \<Rightarrow>
          if active_round_id = [] then (No_active_round, s)
          else
            (case collect_dice uid msg s of
               (Inl r, s1) \<Rightarrow> (r, s1)
             | (Inr dice_values, s1) \<Rightarrow>
                 if length dice_values \<noteq> 3 then (Incomplete_dice, s1)
                 else if \<exists>v \<in> set dice_values. v < 1 \<or> v > 6 then (Invalid_dice, s1)
                 else
                   (case user_by_user_id s1 uid of
                      None \<Rightarrow> (Not_registered, s1)
                    | Some db_user \<Rightarrow>
                        (case find (\<lambda>r. r_id r = active_round_id) (rounds s1) of
                           None \<Rightarrow> (Round_closed, s1)
                         | Some round_data \<Rightarrow>
                             if r_status round_data \<noteq> Open then (Round_closed, s1)
                             else if r_dice_result round_data \<noteq> None
                             then (Already_has_result, s1)
                             else
                               (case settle_bets active_round_id dice_values
                                       (close_round active_round_id now dice_values s1) of
                                  Inl e \<Rightarrow> (Crashed e, s1)
                                | Inr (has_winners, s2) \<Rightarrow> (Settled has_winners, s2))))))"

section \<open>Cancellation\<close>

text \<open>\<open>UPDATE bets SET status = 'cancelled' WHERE id = ?\<close>\<close>

definition mark_cancelled :: "nat \<Rightarrow> db \<Rightarrow> db" where
  "mark_cancelled bet_id s =
     s\<lparr>bets := map (\<lambda>b. if b_id b = bet_id then b\<lparr>b_status := Cancelled\<rparr> else b) (bets s)\<rparr>"

text \<open>\<open>UPDATE users SET balance = balance + ? WHERE id = ?\<close>\<close>

definition add_balance :: "nat \<Rightarrow> int \<Rightarrow> db \<Rightarrow> db" where
  "add_balance i a s =
     s\<lparr>users := map (\<lambda>u. if u_id u = i then u\<lparr>u_balance := u_balance u + a\<rparr> else u) (users s)\<rparr>"

text \<open>
  Cancelling the bets named by a replied-to message: for each parsed bet, the first active
  bet of the user in the round with that type, value and amount.
\<close>

fun cancel_specific :: "nat \<Rightarrow> ustr \<Rightarrow> intent list \<Rightarrow> int \<Rightarrow> db \<Rightarrow> int \<times> db" where
  "cancel_specific user_id round_id [] total_refund s = (total_refund, s)"
| "cancel_specific user_id round_id (bet # bs) total_refund s =
     (case find (\<lambda>b. b_user_id b = user_id \<and> b_round_id b = round_id \<and> b_type b = i_type bet
                     \<and> b_value b = i_value bet \<and> b_amount b = i_amount bet
                     \<and> b_status b = Active) (bets s) of
        None \<Rightarrow> cancel_specific user_id round_id bs total_refund s
      | Some bet_record \<Rightarrow>
          cancel_specific user_id round_id bs (total_refund + b_amount bet_record)
            (insert_log user_id (b_amount bet_record) Refund 0
               (mark_cancelled (b_id bet_record) s)))"

text \<open>Cancelling all active bets of the user in the round, with one ledger entry.\<close>

definition cancel_all :: "nat \<Rightarrow> bet_row list \<Rightarrow> db \<Rightarrow> int \<times> db" where
  "cancel_all user_id user_bets s =
     (let total_refund = sum_list (map b_amount user_bets)
      in (total_refund,
          insert_log user_id total_refund Refund 0
            (fold (\<lambda>bet. mark_cancelled (b_id bet)) user_bets s)))"

text \<open>
  \<open>cancel_bet\<close>; \<open>reply_to\<close> is the text of the replied-to message, if there is one. The
  commit stands under \<open>if total_refund > 0\<close>: without it the connection is closed with its
  writes uncommitted, and the database stays as it was.
\<close>

definition cancel_bet :: "int \<Rightarrow> ustr option \<Rightarrow> db \<Rightarrow> reply \<times> db" where
  "cancel_bet uid reply_to s =
     (case user_by_user_id s uid of
        None \<Rightarrow> (Not_registered, s)
      | Some db_user \<Rightarrow>
          (case get_active_round s of
             None \<Rightarrow> (No_active_round, s)
           | Some active_round_id \<Rightarrow>
               if active_round_id = [] then (No_active_round, s)
               else
                 (case find (\<lambda>r. r_id r = active_round_id) (rounds s) of
                    None \<Rightarrow> (Crashed TypeError, s)
                  | Some round_data \<Rightarrow>
                      if r_status round_data \<noteq> Open then (Round_ended, s)
                      else
                        (let user_id = u_id db_user;
                             finish = (\<lambda>(total_refund, s1).
                                if total_refund > 0
                                then (Cancel_ok total_refund, add_balance user_id total_refund s1)
                                else (Not_found_to_cancel, s))
                         in case reply_to of
                              Some replied_text \<Rightarrow>
                                (case parse_bet replied_text of
                                   None \<Rightarrow> (Cannot_parse_reply, s)
                                 | Some bet_info \<Rightarrow>
                                     finish (cancel_specific user_id active_round_id bet_info 0 s))
                            | None \<Rightarrow>
                                (let user_bets = active_bets s user_id active_round_id
                                 in if user_bets = [] then (Nothing_to_cancel, s)
                                    else finish (cancel_all user_id user_bets s))))))"

section \<open>Operations of the administrators\<close>

text \<open>
  \<open>adjust_balance\<close>. The target is the sender of the replied-to message, with the amount
  read from the text (\<open>None\<close> when it is not a signed number), or the id and the amount of a
  text \<open>IDn +a\<close> (\<open>None\<close> when the text has not that form).
\<close>

datatype adjust_command = By_reply int "int option" | By_id "(nat \<times> int) option"

definition apply_adjust :: "user_row \<Rightarrow> nat \<Rightarrow> int \<Rightarrow> int \<Rightarrow> db \<Rightarrow> reply \<times> db" where
  "apply_adjust operator_data target_user_id current_balance amount s =
     (if amount < 0 \<and> current_balance + amount < 0 then (Insufficient_balance, s)
      else
        (let new_balance = current_balance + amount;
             log_type = (if amount > 0 then Recharge else Withdraw)
         in (Adjust_ok new_balance,
             insert_log target_user_id amount log_type (u_id operator_data)
               (set_balance target_user_id new_balance s))))"

definition adjust_balance :: "int \<Rightarrow> adjust_command \<Rightarrow> db \<Rightarrow> reply \<times> db" where
  "adjust_balance uid cmd s =
     (if \<not> admin_required s uid then (No_permission, s)
      else
        (case user_by_user_id s uid of
           None \<Rightarrow> (Not_registered, s)
         | Some operator_data \<Rightarrow>
             (case cmd of
                By_reply target amount_text \<Rightarrow>
                  (case user_by_user_id s target of
                     None \<Rightarrow> (No_such_user, s)
                   | Some target_user_data \<Rightarrow>
                       (case amount_text of
                          None \<Rightarrow> (Bad_format, s)
                        | Some amount \<Rightarrow>
                            apply_adjust operator_data (u_id target_user_data)
                              (u_balance target_user_data) amount s))
              | By_id None \<Rightarrow> (Bad_format, s)
              | By_id (Some (target_user_id, amount)) \<Rightarrow>
                  (case user_by_id s target_user_id of
                     None \<Rightarrow> (No_such_user, s)
                   | Some target_user_data \<Rightarrow>
                       apply_adjust operator_data target_user_id
                         (u_balance target_user_data) amount s))))"

text \<open>
  A user looked up by a name given in a command: \<open>name\<close> is the text and \<open>as_int\<close> the
  number it reads as, if it reads as one.
\<close>

record name_arg =
  name :: string
  as_int :: "int option"

text \<open>
  \<open>deduct_by_username\<close>; the command is the name and the amount of \<open>/kou @name amount\<close>, or
  \<open>None\<close> when the text has not that form.
\<close>

definition deduct_by_username :: "int \<Rightarrow> (name_arg \<times> int) option \<Rightarrow> db \<Rightarrow> reply \<times> db" where
  "deduct_by_username uid cmd s =
     (if \<not> admin_required s uid then (No_permission, s)
      else
        (case cmd of
           None \<Rightarrow> (Bad_format, s)
         | Some (username, amount) \<Rightarrow>
             if amount \<le> 0 then (Bad_format, s)
             else
               (let by_name = find (\<lambda>u. u_username u = Some (name username)) (users s);
                    user = (case by_name of
                              Some u \<Rightarrow> Some u
                            | None \<Rightarrow> (case as_int username of
                                          None \<Rightarrow> None
                                        | Some user_id \<Rightarrow> user_by_user_id s user_id))
                in case user of
                     None \<Rightarrow> (No_such_user, s)
                   | Some user \<Rightarrow>
                       if u_balance user < amount then (Insufficient_balance, s)
                       else
                         (case user_by_user_id s uid of
                            None \<Rightarrow> (Crashed TypeError, s)
                          | Some operator \<Rightarrow>
                              (let new_balance = u_balance user - amount
                               in (Adjust_ok new_balance,
                                   insert_log (u_id user) (- amount) Withdraw (u_id operator)
                                     (set_balance (u_id user) new_balance s)))))))"

text \<open>\<open>clear_all_balances\<close>: a ledger entry for every positive balance, then all balances 0.\<close>

fun log_clears :: "user_row list \<Rightarrow> nat \<Rightarrow> db \<Rightarrow> db" where
  "log_clears [] operator_id s = s"
| "log_clears (user # us) operator_id s =
     log_clears us operator_id
       (if u_balance user > 0
        then insert_log (u_id user) (- u_balance user) Admin_clear operator_id s
        else s)"

definition clear_all_balances :: "int \<Rightarrow> bool \<Rightarrow> db \<Rightarrow> reply \<times> db" where
  "clear_all_balances uid confirm s =
     (if \<not> super_admin_required s uid then (No_permission, s)
      else if \<not> confirm then (Clear_needs_confirm, s)
      else
        (case user_by_user_id s uid of
           None \<Rightarrow> (Crashed TypeError, s)
         | Some operator \<Rightarrow>
             (let s1 = log_clears (users s) (u_id operator) s
              in (Cleared, s1\<lparr>users := map (\<lambda>u. u\<lparr>u_balance := 0\<rparr>) (users s1)\<rparr>))))"

text \<open>\<open>set_bet_limits\<close>, with the two numbers of the command (\<open>None\<close> when it is malformed).\<close>

definition set_bet_limits :: "int \<Rightarrow> (int \<times> int) option \<Rightarrow> db \<Rightarrow> reply \<times> db" where
  "set_bet_limits uid args s =
     (if \<not> admin_required s uid then (No_permission, s)
      else
        (case args of
           None \<Rightarrow> (Bad_format, s)
         | Some (new_min, new_max) \<Rightarrow>
             if new_min \<le> 0 \<or> new_max \<le> new_min then (Bad_format, s)
             else (Limits_set,
                   s\<lparr>settings := (settings s)\<lparr>min_bet := new_min, max_bet := new_max\<rparr>\<rparr>)))"

datatype odds_name = Daxiao | Hezhi | Baozi

text \<open>\<open>set_odds_value\<close>, with the name and the number of the command.\<close>

definition set_odds_value :: "int \<Rightarrow> (odds_name \<times> int) option \<Rightarrow> db \<Rightarrow> reply \<times> db" where
  "set_odds_value uid args s =
     (if \<not> super_admin_required s uid then (No_permission, s)
      else
        (case args of
           None \<Rightarrow> (Bad_format, s)
         | Some (odds, odds_value) \<Rightarrow>
             if odds_value \<le> 0 then (Bad_format, s)
             else (Odds_set,
                   s\<lparr>settings :=
                      (case odds of
                         Daxiao \<Rightarrow> (settings s)\<lparr>odds_daxiao := odds_value\<rparr>
                       | Hezhi \<Rightarrow> (settings s)\<lparr>odds_hezhi := odds_value\<rparr>
                       | Baozi \<Rightarrow> (settings s)\<lparr>odds_baozi := odds_value\<rparr>)\<rparr>)))"

text \<open>\<open>SELECT ... FROM users WHERE username = ? OR user_id = ?\<close>, \<open>fetchone\<close>.\<close>

definition user_by_name :: "db \<Rightarrow> name_arg \<Rightarrow> user_row option" where
  "user_by_name s username =
     find (\<lambda>u. u_username u = Some (name username) \<or> as_int username = Some (u_user_id u))
       (users s)"

text \<open>\<open>UPDATE users SET is_admin = ? WHERE id = ?\<close>\<close>

definition set_is_admin :: "nat \<Rightarrow> bool \<Rightarrow> db \<Rightarrow> db" where
  "set_is_admin i v s =
     s\<lparr>users := map (\<lambda>u. if u_id u = i then u\<lparr>u_is_admin := v\<rparr> else u) (users s)\<rparr>"

definition add_admin_by_username :: "int \<Rightarrow> name_arg option \<Rightarrow> db \<Rightarrow> reply \<times> db" where
  "add_admin_by_username uid arg s =
     (if \<not> super_admin_required s uid then (No_permission, s)
      else
        (case arg of
           None \<Rightarrow> (Bad_format, s)
         | Some username \<Rightarrow>
             (case user_by_name s username of
                None \<Rightarrow> (No_such_user, s)
              | Some user \<Rightarrow>
                  if u_is_admin user then (Already_admin, s)
                  else (Admin_added, set_is_admin (u_id user) True s))))"

definition remove_admin_by_username :: "int \<Rightarrow> name_arg option \<Rightarrow> db \<Rightarrow> reply \<times> db" where
  "remove_admin_by_username uid arg s =
     (if \<not> super_admin_required s uid then (No_permission, s)
      else
        (case arg of
           None \<Rightarrow> (Bad_format, s)
         | Some username \<Rightarrow>
             (case user_by_name s username of
                None \<Rightarrow> (No_such_user, s)
              | Some user \<Rightarrow>
                  if u_is_super_admin user then (Is_super_admin, s)
                  else if \<not> u_is_admin user then (Not_admin, s)
                  else (Admin_removed, set_is_admin (u_id user) False s))))"

text \<open>
  \<open>open_betting\<close> and \<open>stop_betting\<close>. The betting flag is committed before the round is
  looked for, so it stays set when \<open>create_new_round\<close> raises.
\<close>

definition open_betting :: "int \<Rightarrow> nat \<Rightarrow> nat \<Rightarrow> db \<Rightarrow> reply \<times> db" where
  "open_betting uid today now s =
     (if \<not> admin_required s uid then (No_permission, s)
      else if get_betting_status s then (Already_on, s)
      else
        (let s1 = set_betting_status True s
         in case resolve_round today now s1 of
              Inl e \<Rightarrow> (Crashed e, s1)
            | Inr (active_round_id, s2) \<Rightarrow> (Betting_opened active_round_id, s2)))"

definition stop_betting :: "int \<Rightarrow> db \<Rightarrow> reply \<times> db" where
  "stop_betting uid s =
     (if \<not> admin_required s uid then (No_permission, s)
      else if \<not> get_betting_status s then (Already_off, s)
      else (Betting_closed, set_betting_status False s))"

section \<open>Runs of the program\<close>

text \<open>
  One event is one handled message; the program handles them one after the other. The
  handlers that only read the database, and those that write only the contacts, the media
  or the setting for irrelevant messages, change nothing of the state modelled here and are
  no events.
\<close>

datatype event =
    Ev_start int "string option"
  | Ev_process_bet int ustr nat nat
  | Ev_handle_dice int dice_message nat
  | Ev_cancel_bet int "ustr option"
  | Ev_adjust_balance int adjust_command
  | Ev_deduct_by_username int "(name_arg \<times> int) option"
  | Ev_clear_all_balances int bool
  | Ev_set_bet_limits int "(int \<times> int) option"
  | Ev_set_odds_value int "(odds_name \<times> int) option"
  | Ev_add_admin int "name_arg option"
  | Ev_remove_admin int "name_arg option"
  | Ev_open_betting int nat nat
  | Ev_stop_betting int

fun handle :: "event \<Rightarrow> db \<Rightarrow> reply \<times> db" where
  "handle (Ev_start uid uname) s = start uid uname s"
| "handle (Ev_process_bet uid txt today now) s = process_bet uid txt today now s"
| "handle (Ev_handle_dice uid msg now) s = handle_dice uid msg now s"
| "handle (Ev_cancel_bet uid reply_to) s = cancel_bet uid reply_to s"
| "handle (Ev_adjust_balance uid cmd) s = adjust_balance uid cmd s"
| "handle (Ev_deduct_by_username uid cmd) s = deduct_by_username uid cmd s"
| "handle (Ev_clear_all_balances uid confirm) s = clear_all_balances uid confirm s"
| "handle (Ev_set_bet_limits uid args) s = set_bet_limits uid args s"
| "handle (Ev_set_odds_value uid args) s = set_odds_value uid args s"
| "handle (Ev_add_admin uid arg) s = add_admin_by_username uid arg s"
| "handle (Ev_remove_admin uid arg) s = remove_admin_by_username uid arg s"
| "handle (Ev_open_betting uid today now) s = open_betting uid today now s"
| "handle (Ev_stop_betting uid) s = stop_betting uid s"

fun run :: "event list \<Rightarrow> db \<Rightarrow> db" where
  "run [] s = s"
| "run (e # es) s = run es (snd (handle e s))"

section \<open>Auxiliary definitions for the properties\<close>



text \<open>
  A state for the settlement example: one user with a triple bet and a small bet in the
  open round, and two dice already sent.
\<close>

definition example_round :: ustr where
  "example_round = str_nat 20250101 @ zfill 3 (str_nat 1)"

definition triple_example :: db where
  "triple_example = init_db
     \<lparr>users := [\<lparr>u_id = 1, u_user_id = 100, u_username = None, u_balance = 0,
                  u_is_admin = True, u_is_super_admin = True\<rparr>],
      bets := [\<lparr>b_id = 1, b_user_id = 1, b_round_id = example_round, b_type = [Bao, Zi],
                 b_value = [], b_amount = 1000, b_result = None, b_payout = 0,
                 b_status = Active\<rparr>,
               \<lparr>b_id = 2, b_user_id = 1, b_round_id = example_round, b_type = [Xiao],
                 b_value = [], b_amount = 2000, b_result = None, b_payout = 0,
                 b_status = Active\<rparr>],
      rounds := [\<lparr>r_id = example_round, r_start_time = 0, r_end_time = None,
                   r_dice_result = None, r_status = Open\<rparr>],
      balance_logs := [\<lparr>l_user_id = 1, l_amount = 3000, l_type = Recharge, l_operator_id = 1\<rparr>,
                       \<lparr>l_user_id = 1, l_amount = - 1000, l_type = Bet, l_operator_id = 0\<rparr>,
                       \<lparr>l_user_id = 1, l_amount = - 2000, l_type = Bet, l_operator_id = 0\<rparr>],
      user_data := [(100, [2, 2])]\<rparr>"

text \<open>The rounds that are open.\<close>

definition open_rounds :: "db \<Rightarrow> round_row list" where
  "open_rounds s = filter (\<lambda>r. r_status r = Open) (rounds s)"

text \<open>
  The types of the active bets that the user has in the active round, and the types of
  the bets parsed from a message; the row that \<open>create_new_round\<close> inserts.
\<close>

definition existing_types :: "db \<Rightarrow> int \<Rightarrow> ustr list" where
  "existing_types s uid =
     (case user_by_user_id s uid of
        None \<Rightarrow> []
      | Some u \<Rightarrow> (case get_active_round s of
                    None \<Rightarrow> []
                  | Some round_id \<Rightarrow> map b_type (active_bets s (u_id u) round_id)))"

definition new_types :: "ustr \<Rightarrow> ustr list" where
  "new_types txt = (case parse_bet (strip txt) of None \<Rightarrow> [] | Some bs \<Rightarrow> map i_type bs)"

definition new_round :: "nat \<Rightarrow> nat \<Rightarrow> db \<Rightarrow> round_row" where
  "new_round today now s =
     \<lparr>r_id = str_nat today @ zfill 3 (str_nat (length (filter (\<lambda>r. starts_with (str_nat today) (r_id r)) (rounds s)) + 1)),
      r_start_time = now, r_end_time = None, r_dice_result = None, r_status = Open\<rparr>"

text \<open>How one call may change the rounds table.\<close>

definition rounds_step :: "db \<Rightarrow> db \<Rightarrow> bool" where
  "rounds_step s s' \<longleftrightarrow>
     rounds s' = rounds s \<or>
     (open_rounds s = [] \<and>
      (\<exists>r. rounds s' = rounds s @ [r] \<and> r_id r \<notin> set (map r_id (rounds s)) \<and> r_id r \<noteq> [])) \<or>
     (\<exists>rid now d. get_active_round s = Some rid \<and> rounds s' = rounds (close_round rid now d s))"


text \<open>States and messages for the examples.\<close>

definition registered :: db where
  "registered = init_db
     \<lparr>users := [\<lparr>u_id = 1, u_user_id = 100, u_username = None, u_balance = 0,
                  u_is_admin = True, u_is_super_admin = True\<rparr>]\<rparr>"

definition dice_ready :: db where
  "dice_ready = init_db
     \<lparr>users := [\<lparr>u_id = 1, u_user_id = 100, u_username = None, u_balance = 3000,
                  u_is_admin = True, u_is_super_admin = True\<rparr>],
      balance_logs := [\<lparr>l_user_id = 1, l_amount = 3000, l_type = Recharge, l_operator_id = 1\<rparr>],
      user_data := [(100, [2, 2])]\<rparr>"

definition big_text :: ustr where
  "big_text = [Da, Digit 1 0, Digit 0 0, Digit 0 0, Digit 0 0]"

definition triple_text :: ustr where
  "triple_text = [Bao, Zi, Digit 1 0, Digit 0 0, Digit 0 0, Digit 0 0, Space,
                  Xiao, Digit 2 0, Digit 0 0, Digit 0 0, Digit 0 0]"

definition triple_settled :: db where
  "triple_settled = init_db
     \<lparr>users := [\<lparr>u_id = 1, u_user_id = 100, u_username = None, u_balance = 11000,
                  u_is_admin = True, u_is_super_admin = True\<rparr>],
      bets := [\<lparr>b_id = 1, b_user_id = 1, b_round_id = example_round, b_type = [Bao, Zi],
                 b_value = [], b_amount = 1000, b_result = Some Win, b_payout = 11000,
                 b_status = Active\<rparr>,
               \<lparr>b_id = 2, b_user_id = 1, b_round_id = example_round, b_type = [Xiao],
                 b_value = [], b_amount = 2000, b_result = Some Lose, b_payout = 0,
                 b_status = Active\<rparr>],
      rounds := [\<lparr>r_id = example_round, r_start_time = 0, r_end_time = Some 5,
                   r_dice_result = Some [2, 2, 2], r_status = Closed\<rparr>],
      balance_logs := [\<lparr>l_user_id = 1, l_amount = 3000, l_type = Recharge, l_operator_id = 1\<rparr>,
                       \<lparr>l_user_id = 1, l_amount = - 1000, l_type = Bet, l_operator_id = 0\<rparr>,
                       \<lparr>l_user_id = 1, l_amount = - 2000, l_type = Bet, l_operator_id = 0\<rparr>,
                       \<lparr>l_user_id = 1, l_amount = 11000, l_type = Payout, l_operator_id = 0\<rparr>]\<rparr>"

text \<open>
  The sum of the ledger entries of a user, \<open>SELECT SUM(amount) FROM balance_logs WHERE
  user_id = ?\<close>. The ledger relation: user ids are distinct, every balance is the sum of
  the entries of its user and is not negative, and every entry belongs to a user. Inside a
  handler the balance of user \<open>i\<close> may run behind the entries by \<open>d\<close>.
\<close>

definition log_sum :: "log_row list \<Rightarrow> nat \<Rightarrow> int" where
  "log_sum logs i = sum_list (map l_amount (filter (\<lambda>l. l_user_id l = i) logs))"

definition ledger_off :: "user_row list \<Rightarrow> log_row list \<Rightarrow> nat \<Rightarrow> int \<Rightarrow> bool" where
  "ledger_off us logs i d \<longleftrightarrow>
     distinct (map u_id us) \<and>
     (\<forall>u \<in> set us. u_balance u + (if u_id u = i then d else 0) = log_sum logs (u_id u)
                    \<and> 0 \<le> u_balance u) \<and>
     (\<forall>l \<in> set logs. l_user_id l \<in> set (map u_id us))"

definition ledger :: "db \<Rightarrow> bool" where
  "ledger s \<longleftrightarrow> ledger_off (users s) (balance_logs s) 0 0"






section \<open>The parser\<close>

lemma unique_bets_unseen: "x \<in> set (unique_bets seen bs) \<Longrightarrow> x \<notin> set seen"
proof (induction bs arbitrary: seen)
  case Nil
  then show ?case by simp
next
  case (Cons b bs)
  show ?case
  proof (cases "b \<in> set seen")
    case True
    with Cons show ?thesis by simp
  next
    case False
    with Cons.prems have "x = b \<or> x \<in> set (unique_bets (b # seen) bs)" by simp
    then show ?thesis
    proof
      assume "x = b" with False show ?thesis by simp
    next
      assume "x \<in> set (unique_bets (b # seen) bs)"
      from Cons.IH [OF this] show ?thesis by simp
    qed
  qed
qed

lemma unique_bets_distinct: "distinct (unique_bets seen bs)"
proof (induction bs arbitrary: seen)
  case Nil
  then show ?case by simp
next
  case (Cons b bs)
  have "b \<notin> set (unique_bets (b # seen) bs)"
    using unique_bets_unseen [of b "b # seen" bs] by auto
  with Cons show ?case by simp
qed

lemma parse_bet_distinct: "parse_bet txt = Some bs \<Longrightarrow> distinct bs"
  by (auto simp: parse_bet_def Let_def unique_bets_distinct split: prod.splits if_splits)

lemma pb1: "parse_bet [Da, Digit 1 0, Digit 0 0, Digit 0 0, Digit 0 0]
       = Some [\<lparr>i_type = [Da], i_value = [], i_amount = 1000\<rparr>]" by code_simp
lemma pb2: "parse_bet [Da, Dan, Digit 2 0, Digit 0 0, Digit 0 0, Digit 0 0]
       = Some [\<lparr>i_type = [Da], i_value = [], i_amount = 2000\<rparr>,
               \<lparr>i_type = [Dan], i_value = [], i_amount = 2000\<rparr>]" by code_simp
lemma pb3: "parse_bet [Digit 1 0, Digit 1 0, Space, Digit 1 0, Digit 0 0, Digit 0 0, Digit 0 0]
       = Some [\<lparr>i_type = [He, Zhi], i_value = [Digit 1 0, Digit 1 0], i_amount = 1000\<rparr>]" by code_simp
lemma pb4: "parse_bet [Digit 1 0, Digit 9 0, Space, Digit 1 0, Digit 0 0, Digit 0 0, Digit 0 0] = None" by code_simp


lemma starts_with_self: "starts_with p (p @ r)"
  by (induction p) auto

lemma replace_del_self: "old \<noteq> [] \<Longrightarrow> replace_del old old = []"
proof -
  assume n: "old \<noteq> []"
  then obtain c cs where o: "old = c # cs" by (cases old) auto
  have "starts_with old (c # cs)" using starts_with_self [of old "[]"] o by simp
  then show ?thesis using n o by simp
qed

lemma sub_spaces_id: "\<forall>c \<in> set s. \<not> is_space c \<Longrightarrow> sub_spaces s = s"
  by (induction s) auto

lemma digits_no_space: "\<forall>c \<in> set ds. is_digit c \<Longrightarrow> \<forall>c \<in> set ds. \<not> is_space c"
proof
  fix c assume "\<forall>c \<in> set ds. is_digit c" "c \<in> set ds"
  then have "is_digit c" by blast
  then show "\<not> is_space c" by (cases c) auto
qed

lemma strip_id:
  assumes "s \<noteq> []" and "\<not> is_space (hd s)" and "\<not> is_space (last s)"
  shows "strip s = s"
proof -
  from assms have a: "dropWhile is_space s = s" by (cases s) auto
  from assms have "rev s \<noteq> []" "hd (rev s) = last s" by (simp_all add: hd_rev)
  with assms(3) have "dropWhile is_space (rev s) = rev s"
    by (metis dropWhile.simps(2) list.collapse)
  with a show ?thesis by (simp add: strip_def)
qed

lemma match_amount_digits:
  assumes "ds \<noteq> []" and "\<forall>c \<in> set ds. is_digit c"
  shows "match_amount ds = Some (ds, [])"
proof -
  from assms have "dropWhile is_space ds = ds"
    using digits_no_space [OF assms(2)] by (cases ds) auto
  moreover from assms(2) have "takeWhile is_digit ds = ds" "dropWhile is_digit ds = []"
    by simp_all
  ultimately show ?thesis using assms(1) by (simp add: match_amount_def Let_def del: takeWhile_eq_all_conv)
qed


lemma match_compound:
  assumes "k \<in> set compound" and "ds \<noteq> []" and "\<forall>c \<in> set ds. is_digit c"
  shows "match_type_at bet_keywords (k @ ds) = Some (k, ds, [])"
proof -
  note m = match_amount_digits [OF assms(2,3)]
  from assms(1) consider "k = [Da, Dan]" | "k = [Da, Shuang]" | "k = [Xiao, Dan]" | "k = [Xiao, Shuang]"
    by (auto simp: compound_def)
  then show ?thesis
  proof cases
    case 1
    then show ?thesis by (simp add: bet_keywords_def m)
  next
    case 2
    then show ?thesis by (simp add: bet_keywords_def m)
  next
    case 3
    then show ?thesis by (simp add: bet_keywords_def m)
  next
    case 4
    then show ?thesis by (simp add: bet_keywords_def m)
  qed
qed


lemma parse_compound:
  assumes "k \<in> set compound" and "ds \<noteq> []" and "\<forall>c \<in> set ds. is_digit c"
  shows "parse_bet (k @ ds) =
           Some [\<lparr>i_type = [k ! 0], i_value = [], i_amount = int_of_text ds\<rparr>,
                 \<lparr>i_type = [k ! 1], i_value = [], i_amount = int_of_text ds\<rparr>]"
proof -
  from assms(1) obtain a b where k: "k = [a, b]" and ab: "\<not> is_space a" "\<not> is_space b" "a \<noteq> b"
    by (auto simp: compound_def)
  have l: "last (k @ ds) \<in> set ds" using assms(2) by simp
  with digits_no_space [OF assms(3)] have "\<not> is_space (last (k @ ds))" by blast
  with ab have st: "strip (k @ ds) = k @ ds" by (intro strip_id) (simp_all add: k)
  have "\<forall>c \<in> set (k @ ds). \<not> is_space c"
    using digits_no_space [OF assms(3)] ab by (auto simp: k)
  then have ss: "sub_spaces (k @ ds) = k @ ds" by (rule sub_spaces_id)
  have fa: "findall_type (k @ ds) = [(k, ds)]"
    using match_compound [OF assms] by (simp add: k)
  have rd: "replace_del (k @ ds) (k @ ds) = []" by (rule replace_del_self) (simp add: k)
  have tl: "type_loop [(k, ds)] [] (k @ ds) =
              ([\<lparr>i_type = [k ! 0], i_value = [], i_amount = int_of_text ds\<rparr>,
                \<lparr>i_type = [k ! 1], i_value = [], i_amount = int_of_text ds\<rparr>], [])"
    using assms(1) by (simp add: Let_def rd)
  have se: "strip [] = []" by (simp add: strip_def)
  have "parse_bet (k @ ds) =
          (let u = unique_bets [] [\<lparr>i_type = [k ! 0], i_value = [], i_amount = int_of_text ds\<rparr>,
                 \<lparr>i_type = [k ! 1], i_value = [], i_amount = int_of_text ds\<rparr>]
           in if u = [] then None else Some u)"
    by (simp add: parse_bet_def Let_def st ss fa tl se del: type_loop.simps unique_bets.simps)
  also have "\<dots> = Some [\<lparr>i_type = [k ! 0], i_value = [], i_amount = int_of_text ds\<rparr>,
                 \<lparr>i_type = [k ! 1], i_value = [], i_amount = int_of_text ds\<rparr>]"
    using ab by (simp add: k Let_def)
  finally show ?thesis .
qed


lemma match_type_at_plain:
  assumes "is_digit c \<or> is_space c"
  shows "match_type_at bet_keywords (c # cs) = None"
  using assms by (cases c) (simp_all add: bet_keywords_def)

lemma findall_type_plain:
  "\<forall>c \<in> set s. is_digit c \<or> is_space c \<Longrightarrow> findall_type s = []"
  by (induction s) (simp_all add: match_type_at_plain)

lemma match_sum_spaced:
  assumes "length v = 1 \<or> length v = 2" and "\<forall>c \<in> set v. is_digit c"
    and "ds \<noteq> []" and "\<forall>c \<in> set ds. is_digit c"
  shows "match_sum_at (v @ Space # ds) = Some (v, ds, [])"
proof -
  have sp: "match_amount (Space # ds) = Some (ds, [])"
    using match_amount_digits [OF assms(3,4)] by (simp add: match_amount_def)
  from assms(1) show ?thesis
  proof
    assume "length v = 1"
    then obtain a where v: "v = [a]" by (cases v) auto
    with assms(2) have "is_digit a" by simp
    then show ?thesis by (simp add: v match_sum_at_def sp)
  next
    assume "length v = 2"
    then obtain a b where v: "v = [a, b]"
      by (cases v) (auto simp: length_Suc_conv)
    with assms(2) have "is_digit a" "is_digit b" by simp_all
    then show ?thesis by (simp add: v match_sum_at_def sp)
  qed
qed

lemma parse_sum_spaced:
  assumes "length v = 1 \<or> length v = 2" and "\<forall>c \<in> set v. is_digit c"
    and "ds \<noteq> []" and "\<forall>c \<in> set ds. is_digit c"
  shows "parse_bet (v @ Space # ds) =
           (if 3 \<le> int_of_text v \<and> int_of_text v \<le> 18
            then Some [\<lparr>i_type = [He, Zhi], i_value = str_int (int_of_text v),
                        i_amount = int_of_text ds\<rparr>]
            else None)"
proof -
  let ?s = "v @ Space # ds"
  from assms(1) have vn: "v \<noteq> []" by auto
  have hd: "\<not> is_space (hd ?s)"
    using vn assms(2) digits_no_space [OF assms(2)] by (cases v) auto
  have "last ?s \<in> set ds" using assms(3) by simp
  with digits_no_space [OF assms(4)] have "\<not> is_space (last ?s)" by blast
  with hd have st: "strip ?s = ?s" by (intro strip_id) simp_all
  have ss: "sub_spaces ?s = ?s"
  proof -
    have "sub_spaces ?s = v @ sub_spaces (Space # ds)"
      using digits_no_space [OF assms(2)] by (induction v) auto
    also have "sub_spaces (Space # ds) = Space # sub_spaces ds"
      using digits_no_space [OF assms(4)] assms(3) by (cases ds) auto
    also have "sub_spaces ds = ds"
      using digits_no_space [OF assms(4)] by (rule sub_spaces_id)
    finally show ?thesis .
  qed
  have ft: "findall_type ?s = []"
    using assms(2,4) by (intro findall_type_plain) auto
  have fs: "findall_sum ?s = [(v, ds)]"
    using match_sum_spaced [OF assms] vn by (cases v) simp_all
  show ?thesis
    by (simp add: parse_bet_def Let_def st ss ft fs)
qed

text \<open>
  C8. The reference outputs of the parser: big with amount 1000 gives one bet; the compound
  keyword big-odd with amount 2000 gives the two bets big 2000 and odd 2000, and so does
  every compound keyword followed by an amount, the two bets sharing the stake; \<open>11 1000\<close>
  gives one sum bet of value \<open>11\<close>; \<open>19 1000\<close> gives no bet, 19 being outside 3..18, and so
  for every number of one or two digits, a space and an amount; and no bet occurs twice in a
  result.
\<close>

theorem parse_bet_reference:
  "parse_bet [Da, Digit 1 0, Digit 0 0, Digit 0 0, Digit 0 0]
     = Some [\<lparr>i_type = [Da], i_value = [], i_amount = 1000\<rparr>] \<and>
   parse_bet [Da, Dan, Digit 2 0, Digit 0 0, Digit 0 0, Digit 0 0]
     = Some [\<lparr>i_type = [Da], i_value = [], i_amount = 2000\<rparr>,
             \<lparr>i_type = [Dan], i_value = [], i_amount = 2000\<rparr>] \<and>
   parse_bet [Digit 1 0, Digit 1 0, Space, Digit 1 0, Digit 0 0, Digit 0 0, Digit 0 0]
     = Some [\<lparr>i_type = [He, Zhi], i_value = [Digit 1 0, Digit 1 0], i_amount = 1000\<rparr>] \<and>
   parse_bet [Digit 1 0, Digit 9 0, Space, Digit 1 0, Digit 0 0, Digit 0 0, Digit 0 0] = None \<and>
   (\<forall>k ds. k \<in> set compound \<and> ds \<noteq> [] \<and> (\<forall>c \<in> set ds. is_digit c) \<longrightarrow>
      parse_bet (k @ ds) =
        Some [\<lparr>i_type = [k ! 0], i_value = [], i_amount = int_of_text ds\<rparr>,
              \<lparr>i_type = [k ! 1], i_value = [], i_amount = int_of_text ds\<rparr>]) \<and>
   (\<forall>v ds. (length v = 1 \<or> length v = 2) \<and> (\<forall>c \<in> set v. is_digit c)
            \<and> ds \<noteq> [] \<and> (\<forall>c \<in> set ds. is_digit c) \<longrightarrow>
      parse_bet (v @ Space # ds) =
        (if 3 \<le> int_of_text v \<and> int_of_text v \<le> 18
         then Some [\<lparr>i_type = [He, Zhi], i_value = str_int (int_of_text v),
                     i_amount = int_of_text ds\<rparr>]
         else None)) \<and>
   (\<forall>txt bs. parse_bet txt = Some bs \<longrightarrow> distinct bs)"
  using pb1 pb2 pb3 pb4 parse_compound parse_sum_spaced parse_bet_distinct by blast

theorem parse_bet_reference_witness:
  "parse_bet [Da, Digit 5 0, Space, Xiao, Digit 7 0, Space, Da, Digit 5 0]
     = Some [\<lparr>i_type = [Da], i_value = [], i_amount = 5\<rparr>,
             \<lparr>i_type = [Xiao], i_value = [], i_amount = 7\<rparr>] \<and>
   distinct [\<lparr>i_type = [Da], i_value = [], i_amount = 5\<rparr>,
             \<lparr>i_type = [Xiao], i_value = [], i_amount = 7\<rparr>] \<and>
   parse_bet [Xiao, Shuang, Digit 3 0, Digit 0 0]
     = Some [\<lparr>i_type = [Xiao], i_value = [], i_amount = 30\<rparr>,
             \<lparr>i_type = [Shuang], i_value = [], i_amount = 30\<rparr>] \<and>
   parse_bet [Digit 8 0, Space, Digit 5 0]
     = Some [\<lparr>i_type = [He, Zhi], i_value = [Digit 8 0], i_amount = 5\<rparr>]"
proof -
  have h: "parse_bet [Da, Digit 5 0, Space, Xiao, Digit 7 0, Space, Da, Digit 5 0]
     = Some [\<lparr>i_type = [Da], i_value = [], i_amount = 5\<rparr>,
             \<lparr>i_type = [Xiao], i_value = [], i_amount = 7\<rparr>]"
    by code_simp
  with parse_bet_reference
  have d: "distinct [\<lparr>i_type = [Da], i_value = [], i_amount = 5\<rparr>,
                     \<lparr>i_type = [Xiao], i_value = [], i_amount = 7\<rparr>]"
    by blast
  have k: "[Xiao, Shuang] \<in> set compound \<and> [Digit 3 0, Digit 0 0] \<noteq> []
           \<and> (\<forall>c \<in> set [Digit 3 0, Digit 0 0]. is_digit c)"
    by (simp add: compound_def)
  with parse_bet_reference
  have "parse_bet ([Xiao, Shuang] @ [Digit 3 0, Digit 0 0]) =
        Some [\<lparr>i_type = [ [Xiao, Shuang] ! 0], i_value = [],
                i_amount = int_of_text [Digit 3 0, Digit 0 0]\<rparr>,
              \<lparr>i_type = [ [Xiao, Shuang] ! 1], i_value = [],
                i_amount = int_of_text [Digit 3 0, Digit 0 0]\<rparr>]"
    by blast
  then have c: "parse_bet [Xiao, Shuang, Digit 3 0, Digit 0 0]
     = Some [\<lparr>i_type = [Xiao], i_value = [], i_amount = 30\<rparr>,
             \<lparr>i_type = [Shuang], i_value = [], i_amount = 30\<rparr>]"
    by (simp add: int_of_text_def)
  have v: "(length [Digit 8 0] = 1 \<or> length [Digit 8 0] = 2)
           \<and> (\<forall>c \<in> set [Digit 8 0]. is_digit c) \<and> [Digit 5 0] \<noteq> []
           \<and> (\<forall>c \<in> set [Digit 5 0]. is_digit c)"
    by simp
  with parse_bet_reference
  have "parse_bet ([Digit 8 0] @ Space # [Digit 5 0]) =
        (if 3 \<le> int_of_text [Digit 8 0] \<and> int_of_text [Digit 8 0] \<le> 18
         then Some [\<lparr>i_type = [He, Zhi], i_value = str_int (int_of_text [Digit 8 0]),
                     i_amount = int_of_text [Digit 5 0]\<rparr>]
         else None)"
    by blast
  then have s: "parse_bet [Digit 8 0, Space, Digit 5 0]
     = Some [\<lparr>i_type = [He, Zhi], i_value = [Digit 8 0], i_amount = 5\<rparr>]"
    by (simp add: int_of_text_def str_int_def str_nat.simps)
  from h d c s show ?thesis by blast
qed

text \<open>
  C9. The second pattern allows no whitespace between the number and the amount: the six
  digits \<open>111000\<close> give the sum bet of value \<open>11\<close> and amount 1000.
\<close>

theorem sum_bet_without_space:
  "parse_bet [Digit 1 0, Digit 1 0, Digit 1 0, Digit 0 0, Digit 0 0, Digit 0 0]
     = Some [\<lparr>i_type = [He, Zhi], i_value = [Digit 1 0, Digit 1 0], i_amount = 1000\<rparr>]"
  by code_simp

section \<open>Registration and roles\<close>

text \<open>
  C10. The user who registers into an empty users table gets both the admin and the
  super-admin flag; a user who registers into a non-empty table gets neither, and the rows
  already there stay as they are; \<open>start\<close> for a registered user changes nothing.
\<close>

theorem start_roles:
  "(users s = [] \<longrightarrow>
      users (snd (start uid uname s)) =
        [\<lparr>u_id = 1, u_user_id = uid, u_username = uname, u_balance = 0,
          u_is_admin = True, u_is_super_admin = True\<rparr>]) \<and>
   (users s \<noteq> [] \<and> user_by_user_id s uid = None \<longrightarrow>
      users (snd (start uid uname s)) =
        users s @ [\<lparr>u_id = next_id (map u_id (users s)), u_user_id = uid, u_username = uname,
                    u_balance = 0, u_is_admin = False, u_is_super_admin = False\<rparr>]) \<and>
   (user_by_user_id s uid \<noteq> None \<longrightarrow> snd (start uid uname s) = s)"
  by (auto simp: start_def user_by_user_id_def next_id_def Let_def split: option.splits)

theorem start_roles_witness:
  "users (snd (start 7 None init_db)) =
     [\<lparr>u_id = 1, u_user_id = 7, u_username = None, u_balance = 0,
       u_is_admin = True, u_is_super_admin = True\<rparr>] \<and>
   users (snd (start 8 None (snd (start 7 None init_db)))) =
     [\<lparr>u_id = 1, u_user_id = 7, u_username = None, u_balance = 0,
       u_is_admin = True, u_is_super_admin = True\<rparr>,
      \<lparr>u_id = 2, u_user_id = 8, u_username = None, u_balance = 0,
       u_is_admin = False, u_is_super_admin = False\<rparr>] \<and>
   snd (start 7 None (snd (start 7 None init_db))) = snd (start 7 None init_db)"
proof -
  have e: "users init_db = []" by (simp add: init_db_def)
  from start_roles [of init_db 7 None] e
  have a: "users (snd (start 7 None init_db)) =
     [\<lparr>u_id = 1, u_user_id = 7, u_username = None, u_balance = 0,
       u_is_admin = True, u_is_super_admin = True\<rparr>]" by simp
  then have n: "users (snd (start 7 None init_db)) \<noteq> []"
    and u8: "user_by_user_id (snd (start 7 None init_db)) 8 = None"
    and u7: "user_by_user_id (snd (start 7 None init_db)) 7 \<noteq> None"
    by (simp_all add: user_by_user_id_def)
  from start_roles [of "snd (start 7 None init_db)" 8 None] n u8
  have b: "users (snd (start 8 None (snd (start 7 None init_db)))) =
     users (snd (start 7 None init_db)) @
       [\<lparr>u_id = next_id (map u_id (users (snd (start 7 None init_db)))), u_user_id = 8,
         u_username = None, u_balance = 0, u_is_admin = False, u_is_super_admin = False\<rparr>]"
    by blast
  from start_roles [of "snd (start 7 None init_db)" 7 None] u7
  have c: "snd (start 7 None (snd (start 7 None init_db))) = snd (start 7 None init_db)"
    by blast
  from a b c show ?thesis by (simp add: next_id_def)
qed

section \<open>Settlement\<close>












section \<open>The examples, evaluated\<close>

lemma strip_triple_text: "strip triple_text = triple_text"
  by code_simp

lemma parse_triple_text:
  "parse_bet triple_text = Some [\<lparr>i_type = [Bao, Zi], i_value = [], i_amount = 1000\<rparr>,
                                \<lparr>i_type = [Xiao], i_value = [], i_amount = 2000\<rparr>]"
  by code_simp

lemma strip_big_text: "strip big_text = big_text"
  by code_simp

lemma parse_big_text:
  "parse_bet big_text = Some [\<lparr>i_type = [Da], i_value = [], i_amount = 1000\<rparr>]"
  by code_simp

lemma not_query:
  "triple_text \<noteq> [Digit (Suc 0) 0]" "triple_text \<noteq> [Digit 2 0, Digit 2 0]"
  "triple_text \<noteq> [Digit 3 0, Digit 3 0]"
  "big_text \<noteq> [Digit (Suc 0) 0]" "big_text \<noteq> [Digit 2 0, Digit 2 0]"
  "big_text \<noteq> [Digit 3 0, Digit 3 0]"
  by (simp_all add: triple_text_def big_text_def)

lemma str_nat_today:
  "str_nat 20250101 = [Digit 2 0, Digit 0 0, Digit 2 0, Digit 5 0, Digit 0 0, Digit 1 0,
                       Digit 0 0, Digit 1 0]"
  by (simp add: str_nat.simps)

lemma str_nat_one: "str_nat (Suc 0) = [Digit 1 0]"
  by (simp add: str_nat.simps)

lemma zfill_one: "zfill 3 [Digit (Suc 0) 0] = [Digit 0 0, Digit 0 0, Digit 1 0]"
  by (simp add: zfill_def numeral_2_eq_2)

lemma example_round_eval:
  "example_round = [Digit 2 0, Digit 0 0, Digit 2 0, Digit 5 0, Digit 0 0, Digit 1 0,
                    Digit 0 0, Digit 1 0, Digit 0 0, Digit 0 0, Digit 1 0]"
  by (simp add: example_round_def str_nat_today str_nat_one zfill_one)

lemmas example_simps =
  strip_triple_text parse_triple_text strip_big_text parse_big_text not_query
  str_nat_today str_nat_one zfill_one example_round_eval
  init_db_def get_betting_status_def user_by_user_id_def user_by_id_def resolve_round_def
  get_active_round_def no_round_def create_new_round_def check_pending_round_def
  place_bets_def active_bets_def count_types_def size_odd_even_def opposing_def
  set_balance_def insert_bet_def insert_log_def next_id_def Let_def

lemma process_bet_dice_ready:
  "process_bet 100 triple_text 20250101 0 dice_ready = (Bet_ok 0, triple_example)"
  by (simp add: process_bet_def dice_ready_def triple_example_def example_simps)

lemma process_bet_registered:
  "process_bet 100 big_text 20250101 0 registered =
     (Insufficient_balance,
      registered\<lparr>rounds := [\<lparr>r_id = example_round, r_start_time = 0, r_end_time = None,
                               r_dice_result = None, r_status = Open\<rparr>]\<rparr>)"
  by (simp add: process_bet_def registered_def example_simps)

lemma handle_dice_triple_example:
  "handle_dice 100 (Dice 2) 5 triple_example = (Settled True, triple_settled)"
  by (simp add: handle_dice_def collect_dice_def close_round_def settle_bets_def bet_outcome_def
        set_result_def triple_example_def triple_settled_def example_simps)

section \<open>Bet placement\<close>

lemma latest_None_iff: "latest rs = None \<longleftrightarrow> rs = []"
  by (cases rs) (auto split: option.splits)

lemma get_active_round_None_iff: "get_active_round s = None \<longleftrightarrow> open_rounds s = []"
  by (auto simp: get_active_round_def open_rounds_def latest_None_iff split: option.splits)

lemma check_pending_open: "\<not> check_pending_round s \<Longrightarrow> open_rounds s = []"
  by (auto simp: check_pending_round_def open_rounds_def find_None_iff filter_empty_conv)

lemma open_pending: "open_rounds s \<noteq> [] \<Longrightarrow> check_pending_round s"
  using check_pending_open by blast

lemma create_new_round_cases:
  assumes "create_new_round today now s = Inr (r, s1)"
  shows "(r = None \<and> s1 = s \<and> check_pending_round s) \<or>
         (r = Some (r_id (new_round today now s)) \<and> \<not> check_pending_round s \<and>
          r_id (new_round today now s) \<notin> set (map r_id (rounds s)) \<and>
          s1 = s\<lparr>rounds := rounds s @ [new_round today now s]\<rparr>)"
  using assms
  by (auto simp: create_new_round_def new_round_def Let_def split: if_splits)

lemma resolve_round_cases:
  assumes "resolve_round today now s = Inr (r, s1)"
  shows "(s1 = s \<and> r = get_active_round s \<and> \<not> no_round r) \<or>
         (s1 = s \<and> r = None) \<or>
         (r = Some (r_id (new_round today now s)) \<and> open_rounds s = [] \<and>
          r_id (new_round today now s) \<notin> set (map r_id (rounds s)) \<and>
          s1 = s\<lparr>rounds := rounds s @ [new_round today now s]\<rparr>)"
proof (cases "no_round (get_active_round s)")
  case True
  with assms have c: "create_new_round today now s = Inr (r, s1)"
    by (simp add: resolve_round_def)
  from create_new_round_cases [OF c] show ?thesis
    using check_pending_open by blast
next
  case False
  with assms show ?thesis by (auto simp add: resolve_round_def)
qed

lemma opposing_mono: "opposing ys \<Longrightarrow> set ys \<subseteq> set zs \<Longrightarrow> opposing zs"
  by (auto simp: opposing_def)

lemma place_bets_rejected:
  "(\<forall>nb. fst (place_bets user_id bal round_id mt s) \<noteq> Bet_ok nb) \<Longrightarrow>
   snd (place_bets user_id bal round_id mt s) = s"
  by (auto simp: place_bets_def Let_def split: option.splits if_splits)

lemma place_bets_opposing:
  assumes "parse_bet mt = Some new_bets"
    and "opposing (map b_type (active_bets s user_id round_id) @ map i_type new_bets)"
  shows "fst (place_bets user_id bal round_id mt s) \<in> {Limit_exceeded, Opposing_sides} \<and>
         snd (place_bets user_id bal round_id mt s) = s"
  using assms by (auto simp: place_bets_def Let_def)

lemma active_bets_rounds [simp]: "active_bets (s\<lparr>rounds := rs\<rparr>) u r = active_bets s u r"
  by (simp add: active_bets_def)


text \<open>
  C7. A message whose parsed bet types, together with the types of the active bets that the
  user holds in the active round, contain both big and small, or both odd and even, is not
  accepted: no bet is recorded, no balance and no ledger entry changes.
\<close>

theorem opposing_sides_rejected:
  assumes "opposing (existing_types s uid @ new_types txt)"
  shows "(\<forall>nb. fst (process_bet uid txt today now s) \<noteq> Bet_ok nb) \<and>
         bets (snd (process_bet uid txt today now s)) = bets s \<and>
         users (snd (process_bet uid txt today now s)) = users s \<and>
         balance_logs (snd (process_bet uid txt today now s)) = balance_logs s"
proof (cases "get_betting_status s \<and> strip txt \<noteq> [Digit 1 0] \<and> strip txt \<noteq> [Digit 2 0, Digit 2 0]
              \<and> strip txt \<noteq> [Digit 3 0, Digit 3 0] \<and> user_by_user_id s uid \<noteq> None")
  case False
  then show ?thesis
    by (auto simp: process_bet_def Let_def split: option.splits)
next
  case True
  then obtain u where u: "user_by_user_id s uid = Some u" by auto
  show ?thesis
  proof (cases "resolve_round today now s")
    case (Inl e)
    with True u show ?thesis by (simp add: process_bet_def Let_def)
  next
    case (Inr p)
    obtain r s1 where p: "p = (r, s1)" by (cases p)
    have fr: "bets s1 = bets s" "users s1 = users s" "balance_logs s1 = balance_logs s"
      using resolve_round_cases [OF Inr [unfolded p] ] by auto
    show ?thesis
    proof (cases "no_round r")
      case nr: True
      with True u Inr p fr show ?thesis
        by (auto simp: process_bet_def Let_def no_round_def split: option.splits)
    next
      case nr: False
      then obtain rid where rid: "r = Some rid" "rid \<noteq> []"
        by (auto simp: no_round_def split: option.splits)
      have pb: "process_bet uid txt today now s =
                place_bets (u_id u) (u_balance u) rid (strip txt) s1"
        using True u Inr p rid by (simp add: process_bet_def Let_def)
      show ?thesis
      proof (cases "parse_bet (strip txt)")
        case None
        then have "place_bets (u_id u) (u_balance u) rid (strip txt) s1 = (No_bets_found, s1)"
          by (simp add: place_bets_def Let_def)
        with pb fr show ?thesis by simp
      next
        case (Some new_bets)
        have ex: "set (existing_types s uid) \<subseteq> set (map b_type (active_bets s1 (u_id u) rid))"
        proof (cases "open_rounds s = []")
          case True
          then have "get_active_round s = None" by (simp add: get_active_round_None_iff)
          with u show ?thesis by (simp add: existing_types_def)
        next
          case False
          with resolve_round_cases [OF Inr [unfolded p] ] rid
          have "s1 = s" and "get_active_round s = Some rid" by auto
          with u show ?thesis by (simp add: existing_types_def)
        qed
        have "opposing (map b_type (active_bets s1 (u_id u) rid) @ map i_type new_bets)"
          using assms Some ex by (auto elim!: opposing_mono simp: new_types_def)
        from place_bets_opposing [OF Some this, of "u_balance u"] pb fr
        show ?thesis by auto
      qed
    qed
  qed
qed


theorem opposing_sides_rejected_witness:
  "opposing (existing_types triple_example 100 @ new_types big_text) \<and>
   fst (process_bet 100 big_text 20250101 5 triple_example) = Opposing_sides \<and>
   bets (snd (process_bet 100 big_text 20250101 5 triple_example)) = bets triple_example \<and>
   users (snd (process_bet 100 big_text 20250101 5 triple_example)) = users triple_example \<and>
   balance_logs (snd (process_bet 100 big_text 20250101 5 triple_example)) =
     balance_logs triple_example"
proof -
  have h: "opposing (existing_types triple_example 100 @ new_types big_text)"
    by (simp add: existing_types_def new_types_def triple_example_def example_simps)
  have r: "fst (process_bet 100 big_text 20250101 5 triple_example) = Opposing_sides"
    by (simp add: process_bet_def triple_example_def example_simps)
  from opposing_sides_rejected [OF h, of 20250101 5] h r show ?thesis by simp
qed

text \<open>
  C4, as the program has it. A rejected bet message records no bet and changes no balance,
  no ledger entry and no setting; but the round is looked up, and opened if none is open,
  before the message is parsed and checked, so a rejected message can leave one new open
  round behind. The claim as stated fails: a registered user without balance sends big 1000
  while no round is open; the bet is refused for the balance, and a round has been opened.
\<close>

theorem rejected_bet_opens_round:
  "fst (process_bet 100 big_text 20250101 0 registered) = Insufficient_balance \<and>
   rounds registered = [] \<and>
   rounds (snd (process_bet 100 big_text 20250101 0 registered)) =
     [\<lparr>r_id = example_round, r_start_time = 0, r_end_time = None,
       r_dice_result = None, r_status = Open\<rparr>]"
  by (simp add: process_bet_registered) (simp add: registered_def init_db_def)

theorem rejected_bet_changes_only_rounds:
  assumes "\<forall>nb. fst (process_bet uid txt today now s) \<noteq> Bet_ok nb"
  shows "snd (process_bet uid txt today now s) = s \<or>
         (open_rounds s = [] \<and>
          snd (process_bet uid txt today now s) = s\<lparr>rounds := rounds s @ [new_round today now s]\<rparr>)"
proof (cases "get_betting_status s \<and> strip txt \<noteq> [Digit 1 0] \<and> strip txt \<noteq> [Digit 2 0, Digit 2 0]
              \<and> strip txt \<noteq> [Digit 3 0, Digit 3 0] \<and> user_by_user_id s uid \<noteq> None")
  case False
  then show ?thesis
    by (auto simp: process_bet_def Let_def split: option.splits)
next
  case True
  then obtain u where u: "user_by_user_id s uid = Some u" by auto
  show ?thesis
  proof (cases "resolve_round today now s")
    case (Inl e)
    with True u show ?thesis by (simp add: process_bet_def Let_def)
  next
    case (Inr p)
    obtain r s1 where p: "p = (r, s1)" by (cases p)
    have s1: "s1 = s \<or> (open_rounds s = [] \<and> s1 = s\<lparr>rounds := rounds s @ [new_round today now s]\<rparr>)"
      using resolve_round_cases [OF Inr [unfolded p] ] by auto
    show ?thesis
    proof (cases "no_round r")
      case nr: True
      with True u Inr p s1 show ?thesis
        by (auto simp: process_bet_def Let_def no_round_def split: option.splits)
    next
      case nr: False
      then obtain rid where rid: "r = Some rid" "rid \<noteq> []"
        by (auto simp: no_round_def split: option.splits)
      have pb: "process_bet uid txt today now s =
                place_bets (u_id u) (u_balance u) rid (strip txt) s1"
        using True u Inr p rid by (simp add: process_bet_def Let_def)
      with assms have "snd (place_bets (u_id u) (u_balance u) rid (strip txt) s1) = s1"
        by (intro place_bets_rejected) simp
      with pb s1 show ?thesis by auto
    qed
  qed
qed

theorem rejected_bet_changes_only_rounds_witness:
  "fst (process_bet 100 big_text 20250101 0 registered) = Insufficient_balance \<and>
   (snd (process_bet 100 big_text 20250101 0 registered) = registered \<or>
    (open_rounds registered = [] \<and>
     snd (process_bet 100 big_text 20250101 0 registered) =
       registered\<lparr>rounds := rounds registered @ [new_round 20250101 0 registered]\<rparr>))"
proof -
  have h: "\<forall>nb. fst (process_bet 100 big_text 20250101 0 registered) \<noteq> Bet_ok nb"
    by (simp add: process_bet_registered)
  from rejected_bet_changes_only_rounds [OF h] show ?thesis
    by (simp add: process_bet_registered)
qed

section \<open>Frames of the handlers\<close>

lemma settle_loop_frame:
  "settle_loop dice_nums bs hw s = Inr (hw', s') \<Longrightarrow>
     rounds s' = rounds s \<and> settings s' = settings s \<and> user_data s' = user_data s \<and>
     map u_id (users s') = map u_id (users s) \<and>
     map b_id (bets s') = map b_id (bets s) \<and> map b_amount (bets s') = map b_amount (bets s)"
proof (induction bs arbitrary: hw s)
  case Nil
  then show ?case by simp
next
  case (Cons bet bs)
  obtain res payout where o: "bet_outcome (settings s) dice_nums bet = (res, payout)"
    by (cases "bet_outcome (settings s) dice_nums bet")
  define s1 where "s1 = set_result (b_id bet) res payout s"
  have f1: "rounds s1 = rounds s" "settings s1 = settings s" "user_data s1 = user_data s"
    "users s1 = users s" "map b_id (bets s1) = map b_id (bets s)"
    "map b_amount (bets s1) = map b_amount (bets s)"
    by (auto simp: s1_def set_result_def)
  show ?case
  proof (cases "res = Win \<and> payout > 0")
    case True
    with Cons.prems o obtain user where u: "user_by_id s1 (b_user_id bet) = Some user"
      by (cases "user_by_id s1 (b_user_id bet)") (auto simp: Let_def s1_def)
    define s2 where "s2 = insert_log (b_user_id bet) payout Payout 0
                        (set_balance (b_user_id bet) (u_balance user + payout) s1)"
    have f2: "rounds s2 = rounds s1" "settings s2 = settings s1" "user_data s2 = user_data s1"
      "map u_id (users s2) = map u_id (users s1)" "bets s2 = bets s1"
      by (auto simp: s2_def insert_log_def set_balance_def)
    have "settle_loop dice_nums bs (hw \<or> res = Win) s2 = Inr (hw', s')"
      using Cons.prems True u o by (simp add: Let_def s1_def s2_def)
    from Cons.IH [OF this] show ?thesis by (simp add: f1 f2)
  next
    case False
    have "settle_loop dice_nums bs (hw \<or> res = Win) s1 = Inr (hw', s')"
      using Cons.prems False o by (auto simp add: Let_def s1_def)
    from Cons.IH [OF this] show ?thesis by (simp add: f1)
  qed
qed

lemma settle_bets_frame:
  "settle_bets round_id dice_nums s = Inr (hw, s') \<Longrightarrow>
     rounds s' = rounds s \<and> settings s' = settings s \<and> user_data s' = user_data s \<and>
     map u_id (users s') = map u_id (users s) \<and>
     map b_id (bets s') = map b_id (bets s) \<and> map b_amount (bets s') = map b_amount (bets s)"
  by (auto simp: settle_bets_def Let_def split: if_splits dest: settle_loop_frame)

lemma collect_dice_frame:
  "collect_dice uid msg s = (r, s1) \<Longrightarrow>
     users s1 = users s \<and> bets s1 = bets s \<and> rounds s1 = rounds s \<and>
     settings s1 = settings s \<and> balance_logs s1 = balance_logs s \<and>
     (\<forall>hw. r \<noteq> Inl (Settled hw))"
  by (auto simp: collect_dice_def Let_def split: dice_message.splits if_splits)

text \<open>What a call of handle_dice is: a rejection that at most touches the dice buffer, or a settlement.\<close>

lemma handle_dice_cases:
  obtains (rejected) s1 where "snd (handle_dice uid msg now s) = s1"
      "users s1 = users s" "bets s1 = bets s" "rounds s1 = rounds s"
      "settings s1 = settings s" "balance_logs s1 = balance_logs s"
      "\<forall>hw. fst (handle_dice uid msg now s) \<noteq> Settled hw"
  | (settled) rid dice_values s1 hw s2 where
      "get_active_round s = Some rid" "rid \<noteq> []"
      "users s1 = users s" "bets s1 = bets s" "rounds s1 = rounds s"
      "settings s1 = settings s" "balance_logs s1 = balance_logs s"
      "settle_bets rid dice_values (close_round rid now dice_values s1) = Inr (hw, s2)"
      "handle_dice uid msg now s = (Settled hw, s2)"
proof (cases "get_active_round s")
  case None
  then have "handle_dice uid msg now s = (No_active_round, s)" by (simp add: handle_dice_def)
  then show ?thesis by (intro rejected [of s]) auto
next
  case (Some rid)
  show ?thesis
  proof (cases "rid = []")
    case True
    with Some have "handle_dice uid msg now s = (No_active_round, s)"
      by (simp add: handle_dice_def)
    then show ?thesis by (intro rejected [of s]) auto
  next
    case False
    obtain c s1 where c: "collect_dice uid msg s = (c, s1)" by (cases "collect_dice uid msg s")
    note f = collect_dice_frame [OF c]
    show ?thesis
    proof (cases "\<exists>hw. fst (handle_dice uid msg now s) = Settled hw")
      case no: False
      have "snd (handle_dice uid msg now s) = s1"
        using no Some False c
        by (auto simp: handle_dice_def split: sum.splits option.splits if_splits)
      with f no show ?thesis by (intro rejected [of s1]) auto
    next
      case True
      then obtain hw where "fst (handle_dice uid msg now s) = Settled hw" by blast
      with Some False c f obtain dice_values s2 where
        "settle_bets rid dice_values (close_round rid now dice_values s1) = Inr (hw, s2)"
        "handle_dice uid msg now s = (Settled hw, s2)"
        by (auto simp: handle_dice_def split: sum.splits option.splits if_splits)
      with Some False f show ?thesis by (intro settled [of rid s1 dice_values hw s2]) auto
    qed
  qed
qed

lemma str_nat_nonempty: "str_nat n \<noteq> []"
  by (subst str_nat.simps) simp

lemma new_round_id_nonempty: "r_id (new_round today now s) \<noteq> []"
  by (simp add: new_round_def str_nat_nonempty)

lemma fold_mark_cancelled_frame:
  "rounds (fold (\<lambda>bet. mark_cancelled (b_id bet)) bs s) = rounds s \<and>
   settings (fold (\<lambda>bet. mark_cancelled (b_id bet)) bs s) = settings s \<and>
   user_data (fold (\<lambda>bet. mark_cancelled (b_id bet)) bs s) = user_data s \<and>
   users (fold (\<lambda>bet. mark_cancelled (b_id bet)) bs s) = users s \<and>
   balance_logs (fold (\<lambda>bet. mark_cancelled (b_id bet)) bs s) = balance_logs s \<and>
   map b_id (bets (fold (\<lambda>bet. mark_cancelled (b_id bet)) bs s)) = map b_id (bets s) \<and>
   map b_amount (bets (fold (\<lambda>bet. mark_cancelled (b_id bet)) bs s)) = map b_amount (bets s)"
  by (induction bs arbitrary: s) (auto simp: mark_cancelled_def)

lemma cancel_all_frame:
  "cancel_all user_id bs s = (t, s') \<Longrightarrow>
     rounds s' = rounds s \<and> settings s' = settings s \<and> user_data s' = user_data s \<and>
     users s' = users s \<and>
     map b_id (bets s') = map b_id (bets s) \<and> map b_amount (bets s') = map b_amount (bets s)"
  using fold_mark_cancelled_frame [of bs s]
  by (auto simp: cancel_all_def Let_def insert_log_def)

lemma cancel_specific_frame:
  "cancel_specific user_id round_id bs t s = (t', s') \<Longrightarrow>
     rounds s' = rounds s \<and> settings s' = settings s \<and> user_data s' = user_data s \<and>
     users s' = users s \<and>
     map b_id (bets s') = map b_id (bets s) \<and> map b_amount (bets s') = map b_amount (bets s)"
proof (induction bs arbitrary: t s)
  case Nil
  then show ?case by simp
next
  case (Cons bet bs)
  show ?case
  proof (cases "find (\<lambda>b. b_user_id b = user_id \<and> b_round_id b = round_id \<and> b_type b = i_type bet
                     \<and> b_value b = i_value bet \<and> b_amount b = i_amount bet
                     \<and> b_status b = Active) (bets s)")
    case None
    with Cons show ?thesis by simp
  next
    case (Some bet_record)
    define s1 where "s1 = insert_log user_id (b_amount bet_record) Refund 0
               (mark_cancelled (b_id bet_record) s)"
    have f1: "rounds s1 = rounds s" "settings s1 = settings s" "user_data s1 = user_data s"
      "users s1 = users s" "map b_id (bets s1) = map b_id (bets s)"
      "map b_amount (bets s1) = map b_amount (bets s)"
      by (auto simp: s1_def insert_log_def mark_cancelled_def)
    from Cons.prems Some
    have "cancel_specific user_id round_id bs (t + b_amount bet_record) s1 = (t', s')"
      by (simp add: s1_def)
    from Cons.IH [OF this] show ?thesis by (simp add: f1)
  qed
qed

lemma cancel_bet_frame:
  "rounds (snd (cancel_bet uid reply_to s)) = rounds s \<and>
   settings (snd (cancel_bet uid reply_to s)) = settings s \<and>
   user_data (snd (cancel_bet uid reply_to s)) = user_data s \<and>
   map u_id (users (snd (cancel_bet uid reply_to s))) = map u_id (users s) \<and>
   map b_id (bets (snd (cancel_bet uid reply_to s))) = map b_id (bets s) \<and>
   map b_amount (bets (snd (cancel_bet uid reply_to s))) = map b_amount (bets s)"
proof -
  have a: "\<And>user_id bs t s'. cancel_all user_id bs s = (t, s') \<Longrightarrow>
      rounds (add_balance user_id t s') = rounds s \<and>
      settings (add_balance user_id t s') = settings s \<and>
      user_data (add_balance user_id t s') = user_data s \<and>
      map u_id (users (add_balance user_id t s')) = map u_id (users s) \<and>
      map b_id (bets (add_balance user_id t s')) = map b_id (bets s) \<and>
      map b_amount (bets (add_balance user_id t s')) = map b_amount (bets s)"
    by (drule cancel_all_frame) (simp add: add_balance_def comp_def)
  have b: "\<And>user_id round_id bs t s'. cancel_specific user_id round_id bs 0 s = (t, s') \<Longrightarrow>
      rounds (add_balance user_id t s') = rounds s \<and>
      settings (add_balance user_id t s') = settings s \<and>
      user_data (add_balance user_id t s') = user_data s \<and>
      map u_id (users (add_balance user_id t s')) = map u_id (users s) \<and>
      map b_id (bets (add_balance user_id t s')) = map b_id (bets s) \<and>
      map b_amount (bets (add_balance user_id t s')) = map b_amount (bets s)"
    by (drule cancel_specific_frame) (simp add: add_balance_def comp_def)
  show ?thesis
    by (auto simp: cancel_bet_def Let_def split: option.splits if_splits prod.splits
             dest: a b)
qed

lemma record_bets_frame:
  "rounds (record_bets user_id round_id bs s) = rounds s \<and>
   settings (record_bets user_id round_id bs s) = settings s \<and>
   user_data (record_bets user_id round_id bs s) = user_data s \<and>
   users (record_bets user_id round_id bs s) = users s"
  by (induction bs arbitrary: s) (auto simp: insert_log_def insert_bet_def)

lemma place_bets_frame:
  "rounds (snd (place_bets user_id bal round_id mt s)) = rounds s \<and>
   settings (snd (place_bets user_id bal round_id mt s)) = settings s \<and>
   user_data (snd (place_bets user_id bal round_id mt s)) = user_data s \<and>
   map u_id (users (snd (place_bets user_id bal round_id mt s))) = map u_id (users s)"
  by (auto simp: place_bets_def Let_def record_bets_frame set_balance_def comp_def
           split: option.splits)

lemma process_bet_cases:
  obtains (no_change) "snd (process_bet uid txt today now s) = s"
  | (placed) u r s1 where "user_by_user_id s uid = Some u"
      "resolve_round today now s = Inr (Some r, s1)" "r \<noteq> []"
      "process_bet uid txt today now s = place_bets (u_id u) (u_balance u) r (strip txt) s1"
proof (cases "get_betting_status s \<and> strip txt \<noteq> [Digit 1 0] \<and> strip txt \<noteq> [Digit 2 0, Digit 2 0]
              \<and> strip txt \<noteq> [Digit 3 0, Digit 3 0] \<and> user_by_user_id s uid \<noteq> None")
  case False
  then have "snd (process_bet uid txt today now s) = s"
    by (auto simp: process_bet_def Let_def split: option.splits)
  then show ?thesis by (rule no_change)
next
  case True
  then obtain u where u: "user_by_user_id s uid = Some u" by auto
  show ?thesis
  proof (cases "resolve_round today now s")
    case (Inl e)
    with True u have "snd (process_bet uid txt today now s) = s"
      by (simp add: process_bet_def Let_def)
    then show ?thesis by (rule no_change)
  next
    case (Inr p)
    obtain r s1 where p: "p = (r, s1)" by (cases p)
    show ?thesis
    proof (cases "no_round r")
      case nr: True
      with resolve_round_cases [OF Inr [unfolded p] ] have "s1 = s"
        by (auto simp: no_round_def new_round_id_nonempty)
      with nr True u Inr p have "snd (process_bet uid txt today now s) = s"
        by (auto simp: process_bet_def Let_def no_round_def split: option.splits)
      then show ?thesis by (rule no_change)
    next
      case nr: False
      then obtain rid where rid: "r = Some rid" "rid \<noteq> []"
        by (auto simp: no_round_def split: option.splits)
      have "process_bet uid txt today now s =
                place_bets (u_id u) (u_balance u) rid (strip txt) s1"
        using True u Inr p rid by (simp add: process_bet_def Let_def)
      with u Inr p rid show ?thesis by (intro placed [of u rid s1]) auto
    qed
  qed
qed

lemma resolve_round_step:
  assumes "resolve_round today now s = Inr (r, s1)"
  shows "rounds_step s s1"
  using resolve_round_cases [OF assms]
  by (auto simp: rounds_step_def new_round_id_nonempty)

lemma rounds_step_process_bet: "rounds_step s (snd (process_bet uid txt today now s))"
proof (cases rule: process_bet_cases [of uid "txt" today now s])
  case no_change
  then show ?thesis by (simp add: rounds_step_def)
next
  case (placed u r s1)
  from resolve_round_step [OF placed(2)] placed(4) show ?thesis
    by (simp add: rounds_step_def place_bets_frame)
qed

lemma rounds_step_handle_dice: "rounds_step s (snd (handle_dice uid msg now s))"
proof (cases rule: handle_dice_cases [of uid msg now s])
  case (rejected s1)
  then show ?thesis by (simp add: rounds_step_def)
next
  case (settled rid dice_values s1 hw s2)
  from settle_bets_frame [OF settled(8)] settled
  have "rounds s2 = rounds (close_round rid now dice_values s)"
    by (simp add: close_round_def)
  with settled show ?thesis by (auto simp: rounds_step_def)
qed

lemma rounds_step_open_betting: "rounds_step s (snd (open_betting uid today now s))"
proof -
  have ob: "open_rounds (set_betting_status True s) = open_rounds s"
    "rounds (set_betting_status True s) = rounds s"
    "get_active_round (set_betting_status True s) = get_active_round s"
    by (simp_all add: open_rounds_def set_betting_status_def get_active_round_def)
  have "\<And>r s1. resolve_round today now (set_betting_status True s) = Inr (r, s1)
          \<Longrightarrow> rounds_step s s1"
    by (drule resolve_round_step) (simp add: rounds_step_def ob close_round_def)
  then show ?thesis
    by (auto simp: open_betting_def Let_def rounds_step_def ob split: sum.splits)
qed

lemma log_clears_frame:
  "rounds (log_clears us op s) = rounds s \<and> settings (log_clears us op s) = settings s \<and>
   user_data (log_clears us op s) = user_data s \<and> users (log_clears us op s) = users s \<and>
   bets (log_clears us op s) = bets s"
  by (induction us arbitrary: s) (auto simp: insert_log_def)

lemma rounds_other:
  "rounds (snd (start uid uname s)) = rounds s"
  "rounds (snd (adjust_balance uid cmd s)) = rounds s"
  "rounds (snd (deduct_by_username uid dcmd s)) = rounds s"
  "rounds (snd (clear_all_balances uid confirm s)) = rounds s"
  "rounds (snd (set_bet_limits uid largs s)) = rounds s"
  "rounds (snd (set_odds_value uid oargs s)) = rounds s"
  "rounds (snd (add_admin_by_username uid arg s)) = rounds s"
  "rounds (snd (remove_admin_by_username uid arg s)) = rounds s"
  "rounds (snd (stop_betting uid s)) = rounds s"
  by (auto simp: start_def adjust_balance_def apply_adjust_def deduct_by_username_def
        clear_all_balances_def set_bet_limits_def set_odds_value_def add_admin_by_username_def
        remove_admin_by_username_def stop_betting_def set_betting_status_def set_is_admin_def
        insert_log_def set_balance_def log_clears_frame Let_def
      split: option.splits adjust_command.splits if_splits prod.splits)

lemma rounds_step_handle: "rounds_step s (snd (handle e s))"
proof (cases e)
  case (Ev_process_bet uid tx today now)
  then show ?thesis by (simp add: rounds_step_process_bet)
next
  case (Ev_handle_dice uid msg now)
  then show ?thesis by (simp add: rounds_step_handle_dice)
next
  case (Ev_open_betting uid today now)
  then show ?thesis by (simp add: rounds_step_open_betting)
next
  case (Ev_cancel_bet uid reply_to)
  then show ?thesis by (simp add: rounds_step_def cancel_bet_frame)
qed (simp_all add: rounds_step_def rounds_other)

section \<open>The rounds\<close>

lemma filter_open_close_le:
  "length (filter (\<lambda>r. r_status r = Open)
             (map (\<lambda>r. if r_id r = rid
                       then r\<lparr>r_status := Closed, r_end_time := e, r_dice_result := d\<rparr>
                       else r) rs))
   \<le> length (filter (\<lambda>r. r_status r = Open) rs)"
  by (induction rs) auto

lemma open_rounds_close_le:
  "length (open_rounds (close_round rid now d s)) \<le> length (open_rounds s)"
  using filter_open_close_le [where rid = rid and e = "Some now" and d = "Some d" and rs = "rounds s"]
  by (simp add: open_rounds_def close_round_def del: filter_map)

lemma rounds_step_one_open:
  assumes "rounds_step s s'" and "length (open_rounds s) \<le> 1"
  shows "length (open_rounds s') \<le> 1"
proof -
  from assms(1) consider
      (same) "rounds s' = rounds s"
    | (new) r where "open_rounds s = []" "rounds s' = rounds s @ [r]"
    | (close) rid now d where "rounds s' = rounds (close_round rid now d s)"
    by (auto simp: rounds_step_def)
  then show ?thesis
  proof cases
    case same
    with assms(2) show ?thesis by (simp add: open_rounds_def)
  next
    case new
    then show ?thesis by (simp add: open_rounds_def)
  next
    case close
    then have "open_rounds s' = open_rounds (close_round rid now d s)"
      by (simp add: open_rounds_def)
    with open_rounds_close_le [of rid now d s] assms(2) show ?thesis by simp
  qed
qed

lemma run_one_open:
  "length (open_rounds s) \<le> 1 \<Longrightarrow> length (open_rounds (run evs s)) \<le> 1"
proof (induction evs arbitrary: s)
  case Nil
  then show ?case by simp
next
  case (Cons e evs)
  from rounds_step_one_open [OF rounds_step_handle Cons.prems]
  have "length (open_rounds (snd (handle e s))) \<le> 1" .
  from Cons.IH [OF this] show ?case by simp
qed


text \<open>
  C2. From a state without an open round, whatever messages are handled, at most one round
  is open afterwards.
\<close>

theorem single_open_round:
  assumes "open_rounds s0 = []"
  shows "length (open_rounds (run evs s0)) \<le> 1"
  using assms by (intro run_one_open) simp


theorem single_open_round_witness:
  "open_rounds registered = [] \<and>
   length (open_rounds (run [Ev_process_bet 100 big_text 20250101 0,
                             Ev_process_bet 100 big_text 20250101 5] registered)) \<le> 1"
proof -
  have h: "open_rounds registered = []"
    by (simp add: open_rounds_def registered_def init_db_def)
  from single_open_round [OF h] h show ?thesis by blast
qed

lemma latest_mem: "latest rs = Some r \<Longrightarrow> r \<in> set rs"
  by (induction rs arbitrary: r) (auto split: option.splits if_splits)

lemma close_active_none_open:
  assumes "length (open_rounds s) \<le> 1" and "get_active_round s = Some rid"
  shows "open_rounds (close_round rid now d s) = []"
proof -
  from assms(2) obtain r where l: "latest (open_rounds s) = Some r" and rid: "r_id r = rid"
    by (auto simp: get_active_round_def open_rounds_def split: option.splits)
  from latest_mem [OF l] assms(1) have o: "open_rounds s = [r]"
    by (cases "open_rounds s") auto
  have "\<forall>x \<in> set (rounds s). r_status x = Open \<longrightarrow> r_id x = rid"
  proof (intro ballI impI)
    fix x assume "x \<in> set (rounds s)" "r_status x = Open"
    then have "x \<in> set (open_rounds s)" by (simp add: open_rounds_def)
    with o rid show "r_id x = rid" by simp
  qed
  then show ?thesis
    by (auto simp: open_rounds_def close_round_def filter_empty_conv)
qed

lemma handle_dice_no_open:
  "open_rounds s = [] \<Longrightarrow> handle_dice uid msg now s = (No_active_round, s)"
  by (simp add: handle_dice_def get_active_round_None_iff [symmetric])


text \<open>
  C3. Once a dice message has closed and settled a round, a further dice message, of any
  user and with any dice, finds no active round and changes nothing: no bet, no balance,
  no ledger entry, not even the dice buffer of the sender.
\<close>

theorem settlement_exactly_once:
  assumes "open_rounds s0 = []"
    and "handle_dice uid msg now (run evs s0) = (Settled hw, s')"
  shows "handle_dice uid' msg' now' s' = (No_active_round, s')"
proof -
  let ?s = "run evs s0"
  have one: "length (open_rounds ?s) \<le> 1"
    using assms(1) by (intro run_one_open) simp
  show ?thesis
  proof (cases rule: handle_dice_cases [of uid msg now ?s])
    case (rejected s1)
    with assms(2) show ?thesis by (metis fst_conv)
  next
    case (settled rid dice_values s1 hw2 s2)
    with assms(2) have s2: "s2 = s'" by simp
    from settle_bets_frame [OF settled(8)] settled(5)
    have "rounds s2 = rounds (close_round rid now dice_values ?s)"
      by (simp add: close_round_def)
    then have "open_rounds s2 = open_rounds (close_round rid now dice_values ?s)"
      by (simp add: open_rounds_def)
    with close_active_none_open [OF one settled(1)] s2 have "open_rounds s' = []" by simp
    then show ?thesis by (rule handle_dice_no_open)
  qed
qed

theorem settlement_exactly_once_witness:
  "open_rounds dice_ready = [] \<and>
   handle_dice 100 (Dice 2) 5 (run [Ev_process_bet 100 triple_text 20250101 0] dice_ready) =
     (Settled True, triple_settled) \<and>
   handle_dice 100 (Dice 2) 6 triple_settled = (No_active_round, triple_settled)"
proof -
  have h1: "open_rounds dice_ready = []"
    by (simp add: open_rounds_def dice_ready_def init_db_def)
  have h2: "handle_dice 100 (Dice 2) 5 (run [Ev_process_bet 100 triple_text 20250101 0] dice_ready) =
     (Settled True, triple_settled)"
    by (simp add: process_bet_dice_ready handle_dice_triple_example)
  from settlement_exactly_once [OF h1 h2] h1 h2 show ?thesis by simp
qed

section \<open>The ledger\<close>



lemma log_sum_append [simp]:
  "log_sum (logs @ [l]) i = log_sum logs i + (if l_user_id l = i then l_amount l else 0)"
  by (simp add: log_sum_def)








lemma ledger_cong:
  "users s' = users s \<Longrightarrow> balance_logs s' = balance_logs s \<Longrightarrow> ledger s' = ledger s"
  by (simp add: ledger_def)








































section \<open>Well-formed tables\<close>















section \<open>Cancellation\<close>












end
